theory Spec2Isabelle
  imports Main "HOL-Library.Sublist"
begin

unbundle bit_operations_syntax

section \<open>The JavaScript values the plugin works with\<close>

text \<open>
  The plugin (\<^verbatim>\<open>src/plugin.ts\<close>) is a TypeDoc component with three event handlers:
  \<^verbatim>\<open>onBegin\<close> compiles the configuration, \<^verbatim>\<open>onBeginResolve\<close> scans the comment tags of all
  reflections into a record stored on the project, and \<^verbatim>\<open>onBeginRendererPage\<close> rebuilds
  the table of contents of a page and regroups it with \<^verbatim>\<open>buildGroupTocContent\<close>.

  Every exception the handlers can raise is a \<^verbatim>\<open>TypeError\<close> (a property read on
  \<^verbatim>\<open>undefined\<close>, or a call of something that is not a function).
\<close>

datatype error = TypeError

subsection \<open>Plain objects used as dictionaries\<close>

text \<open>
  \<^verbatim>\<open>mapedTocData\<close> and \<^verbatim>\<open>sortOrder\<close> are object literals \<^verbatim>\<open>{}\<close>. Their own properties are
  kept as an association list in insertion order, with distinct keys. A property read
  \<^verbatim>\<open>obj[key]\<close> that finds no own property continues in \<^verbatim>\<open>Object.prototype\<close>, whose members
  are functions or objects, hence truthy.
\<close>

type_synonym 'v js_object = "(string \<times> 'v) list"

definition object_prototype :: "string list" where
  "object_prototype =
     [''constructor'', ''__proto__'', ''hasOwnProperty'', ''isPrototypeOf'',
      ''propertyIsEnumerable'', ''toLocaleString'', ''toString'', ''valueOf'',
      ''__defineGetter__'', ''__defineSetter__'', ''__lookupGetter__'',
      ''__lookupSetter__'']"

datatype 'v js_get = Own 'v | Inherited | Undefined

definition get_prop :: "'v js_object \<Rightarrow> string \<Rightarrow> 'v js_get" where
  "get_prop obj key =
     (case map_of obj key of
        Some v \<Rightarrow> Own v
      | None \<Rightarrow> if key \<in> set object_prototype then Inherited else Undefined)"

text \<open>\<^verbatim>\<open>obj[key] = v\<close>: an existing own property keeps its place, a new one goes last.\<close>

fun set_prop :: "'v js_object \<Rightarrow> string \<Rightarrow> 'v \<Rightarrow> 'v js_object" where
  "set_prop [] key v = [(key, v)]"
| "set_prop ((k, w) # obj) key v =
     (if k = key then (k, v) # obj else (k, w) # set_prop obj key v)"

text \<open>
  \<^verbatim>\<open>Object.keys\<close> lists the own keys that are array indices (canonical decimal numerals
  below \<open>2^32 - 1\<close>) first, in ascending numeric order, and then the other keys in
  insertion order.
\<close>

definition is_digit :: "char \<Rightarrow> bool" where
  "is_digit c = (48 \<le> (of_char c :: nat) \<and> (of_char c :: nat) \<le> 57)"

definition index_value :: "string \<Rightarrow> nat" where
  "index_value s = foldl (\<lambda>n c. 10 * n + ((of_char c :: nat) - 48)) 0 s"

definition is_array_index :: "string \<Rightarrow> bool" where
  "is_array_index s =
     (s \<noteq> [] \<and> list_all is_digit s \<and> (s = ''0'' \<or> hd s \<noteq> CHR ''0'')
      \<and> index_value s < 4294967295)"

definition Object_keys :: "'v js_object \<Rightarrow> string list" where
  "Object_keys obj =
     sort_key index_value (filter is_array_index (map fst obj))
     @ filter (\<lambda>k. \<not> is_array_index k) (map fst obj)"

subsection \<open>Strings\<close>

text \<open>\<^verbatim>\<open>s.split(',')\<close>: the pieces between the separators; never an empty array.\<close>

fun split_on :: "char \<Rightarrow> string \<Rightarrow> string list" where
  "split_on sep [] = [[]]"
| "split_on sep (c # cs) =
     (if c = sep then [] # split_on sep cs
      else (case split_on sep cs of p # ps \<Rightarrow> (c # p) # ps | [] \<Rightarrow> [[c]]))"

text \<open>\<^verbatim>\<open>s.split(/\r\n?|\n/)\<close>: the lines of a text, for the three line terminators.\<close>

fun split_lines :: "string \<Rightarrow> string list" where
  "split_lines [] = [[]]"
| "split_lines (c # cs) =
     (if c = CHR 0x0D then
        (case cs of
           d # ds \<Rightarrow> if d = CHR 0x0A then [] # split_lines ds else [] # split_lines cs
         | [] \<Rightarrow> [] # split_lines cs)
      else if c = CHR 0x0A then [] # split_lines cs
      else (case split_lines cs of p # ps \<Rightarrow> (c # p) # ps | [] \<Rightarrow> [[c]]))"

text \<open>
  \<^verbatim>\<open>s.toLowerCase()\<close> on the ASCII letters \<^verbatim>\<open>A\<close> to \<^verbatim>\<open>Z\<close>; every other character is left
  as it is (JavaScript also maps the capital letters outside ASCII). The kind names of
  TypeDoc (\<^verbatim>\<open>Class\<close>, \<^verbatim>\<open>Interface\<close>, \<^verbatim>\<open>Type alias\<close>, ...) are ASCII.
\<close>

definition toLowerCase :: "string \<Rightarrow> string" where
  "toLowerCase s =
     map (\<lambda>c. if 65 \<le> (of_char c :: nat) \<and> (of_char c :: nat) \<le> 90
               then char_of ((of_char c :: nat) + 32) else c) s"

text \<open>The decimal numeral a template literal writes for a number, here a natural one.\<close>

fun show_nat :: "nat \<Rightarrow> string" where
  "show_nat n =
     (if n < 10 then [char_of (48 + n)]
      else show_nat (n div 10) @ [char_of (48 + n mod 10)])"

declare show_nat.simps [simp del]

subsection \<open>Regular expressions\<close>

text \<open>
  The grouping pattern is \<^verbatim>\<open>new RegExp(`@(${groupTags.join('|')})`)\<close>: an \<^verbatim>\<open>@\<close> followed by
  one of the alternatives, with no anchor. It is kept as the list of its alternatives,
  and \<^verbatim>\<open>test\<close> succeeds when \<^verbatim>\<open>@\<close> followed by one of them occurs somewhere in the
  subject. That is what the compiled pattern does for names that are plain text,
  \<open>regexp_literal\<close>: no character of a name is one of the characters that the syntax of
  regular expressions gives a meaning of its own. For another name the code compiles
  the name as a pattern (\<^verbatim>\<open>.\<close> stands for any character, \<^verbatim>\<open>a.c\<close> matches \<^verbatim>\<open>abc\<close>), or
  \<^verbatim>\<open>new RegExp\<close> raises a \<^verbatim>\<open>SyntaxError\<close> in \<^verbatim>\<open>onBegin\<close> when the name is no pattern
  (\<^verbatim>\<open>c++\<close>); \<open>regexp_test\<close> does not describe these names, and a statement about what the
  pattern matches is made for plain names only.
\<close>

type_synonym RegExp = "string list"

definition regexp_literal :: "string \<Rightarrow> bool" where
  "regexp_literal t =
     list_all (\<lambda>c. c \<notin> set [CHR 0x5C, CHR ''^'', CHR ''$'', CHR ''.'', CHR ''*'', CHR ''+'',
                                CHR ''?'', CHR ''('', CHR '')'', CHR ''['', CHR '']'', CHR ''{'',
                                CHR ''}'', CHR ''|'']) t"

fun occurs_in :: "string \<Rightarrow> string \<Rightarrow> bool" where
  "occurs_in p [] = (p = [])"
| "occurs_in p (c # cs) = (prefix p (c # cs) \<or> occurs_in p cs)"

definition regexp_test :: "RegExp \<Rightarrow> string \<Rightarrow> bool" where
  "regexp_test alternatives s = list_ex (\<lambda>t. occurs_in (CHR ''@'' # t) s) alternatives"

text \<open>\<^verbatim>\<open>DEPRECATED_REGEXP = /^@deprecated$/\<close> is anchored at both ends.\<close>

definition DEPRECATED_REGEXP_test :: "string \<Rightarrow> bool" where
  "DEPRECATED_REGEXP_test s = (s = ''@deprecated'')"

section \<open>TypeDoc's models\<close>

record CommentTag =
  tagName :: string
  tag_text :: string

record Comment =
  tags :: "CommentTag list option"

text \<open>
  A reflection: its name, its numeric \<^verbatim>\<open>ReflectionKind\<close>, the optional \<^verbatim>\<open>kindString\<close>, the
  optional comment, whether it is the \<^verbatim>\<open>ProjectReflection\<close>, and its parent.
\<close>

datatype Reflection =
  Reflection (name: string) (kind: nat) (kindString: "string option")
    (comment: "Comment option") (isProjectReflection: bool) (parent: "Reflection option")

text \<open>\<^verbatim>\<open>ReflectionKind.SomeModule = Module | ExternalModule\<close>, the two lowest bits.\<close>

definition SomeModule :: nat where
  "SomeModule = 3"

definition kindOf :: "Reflection \<Rightarrow> nat \<Rightarrow> bool" where
  "kindOf r k = (kind r AND k \<noteq> 0)"

text \<open>
  A navigation item. \<^verbatim>\<open>parent\<close> is a back reference: the page's root item or a group
  root, named by its key. The child array of a group root holds references to top-level
  items of the page; they are kept as positions in the page's list of those items, so
  that a change to an item is seen through every array that refers to it. The subtree
  below an item built by TypeDoc is never read or written by the plugin and is not
  represented. \<^verbatim>\<open>new NavigationItem(title, url)\<close> stores its arguments and leaves
  \<^verbatim>\<open>parent\<close>, \<^verbatim>\<open>reflection\<close> and \<^verbatim>\<open>children\<close> undefined.
\<close>

datatype item_ref = TocRoot | GroupRoot string

record NavigationItem =
  title :: string
  url :: string
  nav_parent :: "item_ref option"
  reflection :: "Reflection option"
  children :: "nat list option"
  groupTitle :: "string option"
  deprecated :: bool

definition new_NavigationItem :: "string \<Rightarrow> string \<Rightarrow> NavigationItem" where
  "new_NavigationItem t u =
     \<lparr>title = t, url = u, nav_parent = None, reflection = None, children = None,
      groupTitle = None, deprecated = False\<rparr>"

section \<open>Configuration: onBegin\<close>

record Options =
  toc_group :: "string option"
  tocKindSortOrder :: "string list option"
  homePath_option :: "string option"

definition defaultTags :: "string list" where
  "defaultTags = [''group'', ''kind'', ''platform'']"

definition groupTags :: "Options \<Rightarrow> string list" where
  "groupTags options =
     (let userTags = split_on (CHR '','') (case toc_group options of Some v \<Rightarrow> v | None \<Rightarrow> [])
      in filter (\<lambda>item. length item \<noteq> 0) (defaultTags @ userTags))"

text \<open>
  \<^verbatim>\<open>acc[item.toLowerCase()] = idx\<close> on an object literal; an assignment of a number to
  \<^verbatim>\<open>__proto__\<close> changes nothing.
\<close>

definition sortOrder_of :: "string list \<Rightarrow> nat js_object" where
  "sortOrder_of names =
     foldl (\<lambda>acc (item, idx).
              if toLowerCase item = ''__proto__'' then acc
              else set_prop acc (toLowerCase item) idx)
       [] (zip names [0 ..< length names])"

record TocGroupPlugin =
  plugin_regexp :: RegExp
  plugin_sortOrder :: "nat js_object"

text \<open>
  \<^verbatim>\<open>onBegin\<close> (lines 48 to 58): the grouping pattern from the names and the ranks of the
  kinds. It is total here: the \<^verbatim>\<open>SyntaxError\<close> of \<^verbatim>\<open>new RegExp\<close> for a configured name that
  is no pattern is not represented (no name below is such a name).
\<close>

definition onBegin :: "Options \<Rightarrow> TocGroupPlugin" where
  "onBegin options =
     \<lparr>plugin_regexp = groupTags options,
      plugin_sortOrder =
        sortOrder_of (case tocKindSortOrder options of Some l \<Rightarrow> l | None \<Rightarrow> [])\<rparr>"

text \<open>
  \<^verbatim>\<open>compareKind\<close>: \<^verbatim>\<open>sortOrder[a.toLowerCase()] || 0\<close> is the configured rank, or 0 when the
  name has none; for a name that \<^verbatim>\<open>Object.prototype\<close> defines it is that member, and the
  difference is then \<^verbatim>\<open>NaN\<close> (the result \<open>None\<close>).
\<close>

definition rank_of :: "nat js_object \<Rightarrow> string \<Rightarrow> int option" where
  "rank_of sortOrder a =
     (case get_prop sortOrder (toLowerCase a) of
        Own n \<Rightarrow> Some (int n)
      | Undefined \<Rightarrow> Some 0
      | Inherited \<Rightarrow> None)"

definition compareKind :: "nat js_object \<Rightarrow> string \<Rightarrow> string \<Rightarrow> int option" where
  "compareKind sortOrder a b =
     (case rank_of sortOrder a of
        None \<Rightarrow> None
      | Some aIndex \<Rightarrow>
          (case rank_of sortOrder b of
             None \<Rightarrow> None
           | Some bIndex \<Rightarrow> Some (aIndex - bIndex)))"

section \<open>The Tag Indexer: onBeginResolve\<close>

text \<open>The record stored as \<^verbatim>\<open>context.project[PLUGIN_NAME]\<close>.\<close>

record plugin_data =
  groupedData :: "string list"
  deprecatedData :: "string set"
  mapedTocData :: "string list js_object"
  homePath :: string
  regexp :: RegExp
  sortOrder :: "nat js_object"

definition is_deprecated_tag :: "CommentTag \<Rightarrow> bool" where
  "is_deprecated_tag tag = DEPRECATED_REGEXP_test (CHR ''@'' # tagName tag)"

definition is_grouping_tag :: "RegExp \<Rightarrow> CommentTag \<Rightarrow> bool" where
  "is_grouping_tag re tag = regexp_test re (CHR ''@'' # tagName tag)"

definition groupKey_of :: "CommentTag \<Rightarrow> string" where
  "groupKey_of tag = hd (split_lines (tag_text tag))"

text \<open>
  The loop over the tags of one reflection (lines 78 to 90). The three collections are
  the fields of the record under construction. When \<^verbatim>\<open>mapedTocData[groupKey]\<close> is a
  member of \<^verbatim>\<open>Object.prototype\<close> no list is created and the call of \<^verbatim>\<open>push\<close> on it
  raises.
\<close>

fun scan_tags :: "string \<Rightarrow> CommentTag list \<Rightarrow> plugin_data \<Rightarrow> error + plugin_data" where
  "scan_tags ref_name [] d = Inr d"
| "scan_tags ref_name (tag # rest) d =
     (let d1 = (if is_deprecated_tag tag
                then d\<lparr>deprecatedData := insert ref_name (deprecatedData d)\<rparr> else d)
      in if is_grouping_tag (regexp d1) tag then
           (let d2 = d1\<lparr>groupedData := groupedData d1 @ [ref_name]\<rparr>;
                groupKey = groupKey_of tag
            in case get_prop (mapedTocData d2) groupKey of
                 Undefined \<Rightarrow>
                   Inr (d2\<lparr>mapedTocData := set_prop (mapedTocData d2) groupKey [ref_name]\<rparr>)
               | Own members \<Rightarrow>
                   Inr (d2\<lparr>mapedTocData :=
                             set_prop (mapedTocData d2) groupKey (members @ [ref_name])\<rparr>)
               | Inherited \<Rightarrow> Inl TypeError)
         else scan_tags ref_name rest d1)"

text \<open>The loop over the reflections of the project (lines 72 to 91).\<close>

fun scan_reflections :: "Reflection list \<Rightarrow> plugin_data \<Rightarrow> error + plugin_data" where
  "scan_reflections [] d = Inr d"
| "scan_reflections (ref # refs) d =
     (case comment ref of
        None \<Rightarrow> scan_reflections refs d
      | Some c \<Rightarrow>
          (case tags c of
             None \<Rightarrow> scan_reflections refs d
           | Some ts \<Rightarrow>
               (case scan_tags (name ref) ts d of
                  Inl e \<Rightarrow> Inl e
                | Inr d' \<Rightarrow> scan_reflections refs d')))"

definition default_homePath :: "string \<Rightarrow> string" where
  "default_homePath project_name =
     ''modules/_index_.'' @ filter (\<lambda>c. c \<noteq> CHR ''-'') project_name @ ''.html''"

text \<open>
  \<^verbatim>\<open>onBeginResolve\<close>, for the plugin as configured, the options, the name of the project
  and its reflections in the order of \<^verbatim>\<open>for (const key in reflections)\<close>.
\<close>

definition onBeginResolve ::
    "TocGroupPlugin \<Rightarrow> Options \<Rightarrow> string \<Rightarrow> Reflection list \<Rightarrow> error + plugin_data" where
  "onBeginResolve this options project_name reflections =
     scan_reflections reflections
       \<lparr>groupedData = [], deprecatedData = {}, mapedTocData = [],
        homePath = (case homePath_option options of
                      None \<Rightarrow> default_homePath project_name
                    | Some h \<Rightarrow> if h = [] then default_homePath project_name else h),
        regexp = plugin_regexp this, sortOrder = plugin_sortOrder this\<rparr>"

section \<open>The Tree Regrouper: onBeginRendererPage and buildGroupTocContent\<close>

text \<open>
  The page event, as far as the plugin reads or writes it: the model of the page,
  \<^verbatim>\<open>page.project[PLUGIN_NAME]\<close> (undefined before \<^verbatim>\<open>onBeginResolve\<close> has run), the array
  of top-level items that \<^verbatim>\<open>TocPlugin.buildToc\<close> filled (undefined when it added no
  item), and what \<^verbatim>\<open>page.toc.children\<close> refers to: that array, or the array of group
  roots once it has been replaced.
\<close>

datatype page_model = ReflectionModel Reflection | OtherModel

datatype toc_children = Default | Regrouped "NavigationItem list"

record PageEvent =
  model :: page_model
  project_data :: "plugin_data option"
  nodes :: "NavigationItem list option"
  toc :: toc_children

definition DEFAULT_UNGROUPED_NAME :: string where
  "DEFAULT_UNGROUPED_NAME = ''Others''"

text \<open>Lines 126 to 134: the list of the ungrouped titles, stored under \<^verbatim>\<open>Others\<close>.\<close>

definition set_ungrouped ::
    "plugin_data \<Rightarrow> NavigationItem list option \<Rightarrow> error + plugin_data" where
  "set_ungrouped d toc_items =
     (case get_prop (mapedTocData d) DEFAULT_UNGROUPED_NAME of
        Undefined \<Rightarrow>
          (case toc_items of
             None \<Rightarrow> Inl TypeError
           | Some items \<Rightarrow>
               (let defaultGroups =
                      map title (filter (\<lambda>item. title item \<notin> set (groupedData d)) items)
                in if defaultGroups \<noteq> []
                   then Inr (d\<lparr>mapedTocData :=
                                 set_prop (mapedTocData d) DEFAULT_UNGROUPED_NAME defaultGroups\<rparr>)
                   else Inr d))
      | Own members \<Rightarrow> Inr d
      | Inherited \<Rightarrow> Inr d)"

text \<open>
  The callback of \<^verbatim>\<open>filter\<close> (lines 140 to 150) on one item, for the group root named
  \<open>key\<close> and the value \<^verbatim>\<open>mapedTocData[key]\<close>: whether the item is kept, and the item as
  the callback leaves it.
\<close>

definition kind_probe :: "Reflection \<Rightarrow> string" where
  "kind_probe r = ''@!'' @ show_nat (kind r)"

definition filter_item ::
    "plugin_data \<Rightarrow> string \<Rightarrow> string list js_get \<Rightarrow> NavigationItem
       \<Rightarrow> error + bool \<times> NavigationItem" where
  "filter_item d key groupedValue item =
     (case reflection item of
        None \<Rightarrow> Inl TypeError
      | Some r \<Rightarrow>
          if regexp_test (regexp d) (kind_probe r) then Inr (False, item)
          else
            (let item1 = (if title item \<in> deprecatedData d
                          then item\<lparr>deprecated := True\<rparr> else item)
             in case groupedValue of
                  Own members \<Rightarrow>
                    if title item \<in> set members
                    then Inr (True, item1\<lparr>nav_parent := Some (GroupRoot key)\<rparr>)
                    else Inr (False, item1)
                | Inherited \<Rightarrow> Inl TypeError
                | Undefined \<Rightarrow> Inl TypeError))"

text \<open>
  \<^verbatim>\<open>page.toc.children.filter(...)\<close>: the items from position \<open>i\<close> on, as the callbacks leave
  them, and the positions of the items kept, unless a callback raises.
\<close>

fun filter_children ::
    "plugin_data \<Rightarrow> string \<Rightarrow> string list js_get \<Rightarrow> nat \<Rightarrow> NavigationItem list
       \<Rightarrow> NavigationItem list \<times> (error + nat list)" where
  "filter_children d key groupedValue i [] = ([], Inr [])"
| "filter_children d key groupedValue i (item # rest) =
     (case filter_item d key groupedValue item of
        Inl e \<Rightarrow> (item # rest, Inl e)
      | Inr (keep, item') \<Rightarrow>
          (case filter_children d key groupedValue (Suc i) rest of
             (rest', Inl e) \<Rightarrow> (item' # rest', Inl e)
           | (rest', Inr kept) \<Rightarrow>
               (item' # rest', Inr (if keep then i # kept else kept))))"

text \<open>
  The callback of \<^verbatim>\<open>map\<close> over the keys (lines 136 to 152), key after key: one group root
  for each key.
\<close>

definition group_root :: "plugin_data \<Rightarrow> string \<Rightarrow> nat list \<Rightarrow> NavigationItem" where
  "group_root d key kept =
     (new_NavigationItem key (homePath d))\<lparr>groupTitle := Some key, children := Some kept\<rparr>"

fun build_roots ::
    "plugin_data \<Rightarrow> string list \<Rightarrow> NavigationItem list option
       \<Rightarrow> NavigationItem list option \<times> (error + NavigationItem list)" where
  "build_roots d [] toc_items = (toc_items, Inr [])"
| "build_roots d (key # keys) toc_items =
     (case toc_items of
        None \<Rightarrow> (None, Inl TypeError)
      | Some items \<Rightarrow>
          (case filter_children d key (get_prop (mapedTocData d) key) 0 items of
             (items1, Inl e) \<Rightarrow> (Some items1, Inl e)
           | (items1, Inr kept) \<Rightarrow>
               (case build_roots d keys (Some items1) of
                  (items2, Inl e) \<Rightarrow> (items2, Inl e)
                | (items2, Inr roots) \<Rightarrow> (items2, Inr (group_root d key kept # roots)))))"

text \<open>
  The comparison function of the sort (lines 153 to 157). It reads \<^verbatim>\<open>kindString\<close> from the
  \<^verbatim>\<open>reflection\<close> of each of the two items and calls \<^verbatim>\<open>toLowerCase\<close> on it in \<^verbatim>\<open>compareKind\<close>.
\<close>

definition sort_compare ::
    "nat js_object \<Rightarrow> NavigationItem \<Rightarrow> NavigationItem \<Rightarrow> error + int option" where
  "sort_compare order a b =
     (case reflection a of
        None \<Rightarrow> Inl TypeError
      | Some ra \<Rightarrow>
          (case reflection b of
             None \<Rightarrow> Inl TypeError
           | Some rb \<Rightarrow>
               (case kindString ra of
                  None \<Rightarrow> Inl TypeError
                | Some aKind \<Rightarrow>
                    (case kindString rb of
                       None \<Rightarrow> Inl TypeError
                     | Some bKind \<Rightarrow> Inr (compareKind order aKind bKind)))))"

text \<open>
  \<^verbatim>\<open>Array.prototype.sort\<close> with a comparison function: a stable sort, here by insertion.
  An array of fewer than two elements is returned without a call of the function; a
  result that is \<^verbatim>\<open>NaN\<close> counts as 0; an exception of the function ends the sort.
\<close>

fun insert_sorted ::
    "('a \<Rightarrow> 'a \<Rightarrow> error + int option) \<Rightarrow> 'a \<Rightarrow> 'a list \<Rightarrow> error + 'a list" where
  "insert_sorted cmp x [] = Inr [x]"
| "insert_sorted cmp x (y # ys) =
     (case cmp x y of
        Inl e \<Rightarrow> Inl e
      | Inr v \<Rightarrow>
          if (case v of Some n \<Rightarrow> 0 < n | None \<Rightarrow> False)
          then (case insert_sorted cmp x ys of
                  Inl e \<Rightarrow> Inl e
                | Inr zs \<Rightarrow> Inr (y # zs))
          else Inr (x # y # ys))"

fun js_sort :: "('a \<Rightarrow> 'a \<Rightarrow> error + int option) \<Rightarrow> 'a list \<Rightarrow> error + 'a list" where
  "js_sort cmp [] = Inr []"
| "js_sort cmp (x # xs) =
     (case js_sort cmp xs of
        Inl e \<Rightarrow> Inl e
      | Inr ys \<Rightarrow> insert_sorted cmp x ys)"

text \<open>
  \<^verbatim>\<open>buildGroupTocContent\<close>: the page event on exit, and the exception if one was raised.
  What the function has written before an exception stays written.
\<close>

definition buildGroupTocContent :: "PageEvent \<Rightarrow> PageEvent \<times> error option" where
  "buildGroupTocContent page =
     (case project_data page of
        None \<Rightarrow> (page, Some TypeError)
      | Some d \<Rightarrow>
          if Object_keys (mapedTocData d) = [] then (page, None)
          else
            (case set_ungrouped d (nodes page) of
               Inl e \<Rightarrow> (page, Some e)
             | Inr d1 \<Rightarrow>
                 (case build_roots d1 (Object_keys (mapedTocData d1)) (nodes page) of
                    (items, Inl e) \<Rightarrow>
                      (page\<lparr>project_data := Some d1, nodes := items\<rparr>, Some e)
                  | (items, Inr roots) \<Rightarrow>
                      (case js_sort (sort_compare (sortOrder d1)) roots of
                         Inl e \<Rightarrow> (page\<lparr>project_data := Some d1, nodes := items\<rparr>, Some e)
                       | Inr updatedToc \<Rightarrow>
                           if updatedToc \<noteq> []
                           then (page\<lparr>project_data := Some d1, nodes := items,
                                       toc := Regrouped updatedToc\<rparr>, None)
                           else (page\<lparr>project_data := Some d1, nodes := items\<rparr>, None)))))"

text \<open>
  The loop of \<^verbatim>\<open>onBeginRendererPage\<close> (lines 110 to 113): up the parents to the project or
  to a module, collecting the trail. A reflection that is neither and has no parent
  makes \<^verbatim>\<open>model.kindOf\<close> a read on \<^verbatim>\<open>undefined\<close>.
\<close>

fun walk_up :: "Reflection \<Rightarrow> Reflection list \<Rightarrow> error + Reflection \<times> Reflection list" where
  "walk_up (Reflection n k ks c is_project par) trail =
     (if \<not> is_project \<and> \<not> kindOf (Reflection n k ks c is_project par) SomeModule
      then (case par of
              None \<Rightarrow> Inl TypeError
            | Some p \<Rightarrow> walk_up p (Reflection n k ks c is_project par # trail))
      else Inr (Reflection n k ks c is_project par, trail))"

text \<open>
  \<^verbatim>\<open>onBeginRendererPage\<close>. \<^verbatim>\<open>TocPlugin.buildToc\<close> belongs to TypeDoc and is a parameter: from
  the model and the trail to the array of top-level items it leaves in the new
  \<^verbatim>\<open>page.toc\<close> (with the restriction \<^verbatim>\<open>this.owner.toc\<close> applied).
\<close>

definition onBeginRendererPage ::
    "(Reflection \<Rightarrow> Reflection list \<Rightarrow> NavigationItem list option) \<Rightarrow> PageEvent
       \<Rightarrow> PageEvent \<times> error option" where
  "onBeginRendererPage buildToc page =
     (case model page of
        OtherModel \<Rightarrow> (page, None)
      | ReflectionModel m \<Rightarrow>
          (case walk_up m [] of
             Inl e \<Rightarrow> (page, Some e)
           | Inr (m', trail) \<Rightarrow>
               buildGroupTocContent (page\<lparr>nodes := buildToc m' trail, toc := Default\<rparr>)))"

section \<open>Notions used in the statements\<close>

text \<open>The names that occur in the member lists of \<^verbatim>\<open>mapedTocData\<close>.\<close>

definition all_members :: "string list js_object \<Rightarrow> string set" where
  "all_members obj = \<Union>(set ` snd ` set obj)"

section \<open>Inputs for the examples\<close>

text \<open>No option set: the three built-in tag names and no order of kinds.\<close>

definition default_options :: Options where
  "default_options = \<lparr>toc_group = None, tocKindSortOrder = None, homePath_option = None\<rparr>"

text \<open>A top-level symbol with a comment that carries the given tags.\<close>

definition symbol :: "string \<Rightarrow> nat \<Rightarrow> string \<Rightarrow> CommentTag list \<Rightarrow> Reflection" where
  "symbol nm k ks ts = Reflection nm k (Some ks) (Some \<lparr>tags = Some ts\<rparr>) False None"

text \<open>
  The item \<^verbatim>\<open>TocPlugin.buildToc\<close> creates for a reflection (\<^verbatim>\<open>NavigationItem.create\<close>): titled
  by the reflection's name, a child of the page's root item.
\<close>

definition item_of :: "Reflection \<Rightarrow> NavigationItem" where
  "item_of r =
     (new_NavigationItem (name r) (name r @ ''.html''))
       \<lparr>nav_parent := Some TocRoot, reflection := Some r\<rparr>"

text \<open>The project itself, and a page whose default tree holds an item for each symbol.\<close>

definition docs_project :: Reflection where
  "docs_project = Reflection ''docs'' 0 None None True None"

definition default_page :: "page_model \<Rightarrow> plugin_data \<Rightarrow> Reflection list \<Rightarrow> PageEvent" where
  "default_page m d syms =
     \<lparr>model = m, project_data = Some d, nodes = Some (map item_of syms), toc = Default\<rparr>"

text \<open>
  The symbols of the first scenario of the specification: \<^verbatim>\<open>Foo\<close> and \<^verbatim>\<open>Bar\<close> tagged
  \<^verbatim>\<open>@group Alpha\<close>, \<^verbatim>\<open>Baz\<close> without a grouping tag.
\<close>

definition scenario1 :: "Reflection list" where
  "scenario1 =
     [symbol ''Foo'' 128 ''Class'' [\<lparr>tagName = ''group'', tag_text = ''Alpha''\<rparr>],
      symbol ''Bar'' 256 ''Interface'' [\<lparr>tagName = ''group'', tag_text = ''Alpha''\<rparr>],
      symbol ''Baz'' 64 ''Function'' []]"

text \<open>The record the Indexer returns for them with no option set.\<close>

definition scenario1_data :: plugin_data where
  "scenario1_data =
     \<lparr>groupedData = [''Foo'', ''Bar''], deprecatedData = {},
      mapedTocData = [(''Alpha'', [''Foo'', ''Bar''])],
      homePath = ''modules/_index_.docs.html'',
      regexp = [''group'', ''kind'', ''platform''], sortOrder = []\<rparr>"

text \<open>A build with the single symbol \<^verbatim>\<open>Foo\<close>, tagged \<^verbatim>\<open>@group Alpha\<close>, and its record.\<close>

definition alpha_symbols :: "Reflection list" where
  "alpha_symbols = [symbol ''Foo'' 128 ''Class'' [\<lparr>tagName = ''group'', tag_text = ''Alpha''\<rparr>]]"

definition alpha_data :: plugin_data where
  "alpha_data =
     \<lparr>groupedData = [''Foo''], deprecatedData = {},
      mapedTocData = [(''Alpha'', [''Foo''])],
      homePath = ''modules/_index_.docs.html'',
      regexp = [''group'', ''kind'', ''platform''], sortOrder = []\<rparr>"

text \<open>A tree builder that gives every model an item for each of the symbols.\<close>

definition buildToc_of ::
    "Reflection list \<Rightarrow> Reflection \<Rightarrow> Reflection list \<Rightarrow> NavigationItem list option" where
  "buildToc_of syms m trail = (if syms = [] then None else Some (map item_of syms))"

text \<open>
  The second scenario of the specification: \<^verbatim>\<open>Qux\<close> with the tags \<^verbatim>\<open>@deprecated\<close> and
  \<^verbatim>\<open>@group Beta\<close>, and the record of that build.
\<close>

definition scenario2 :: "Reflection list" where
  "scenario2 =
     [symbol ''Qux'' 128 ''Class''
        [\<lparr>tagName = ''deprecated'', tag_text = []\<rparr>,
         \<lparr>tagName = ''group'', tag_text = ''Beta''\<rparr>]]"

definition scenario2_data :: plugin_data where
  "scenario2_data =
     \<lparr>groupedData = [''Qux''], deprecatedData = {''Qux''},
      mapedTocData = [(''Beta'', [''Qux''])],
      homePath = ''modules/_index_.docs.html'',
      regexp = [''group'', ''kind'', ''platform''], sortOrder = []\<rparr>"

text \<open>
  A build in which \<^verbatim>\<open>Foo\<close> is tagged \<^verbatim>\<open>@group Others\<close> and \<^verbatim>\<open>Baz\<close> has no grouping tag, and
  its record.
\<close>

definition others_symbols :: "Reflection list" where
  "others_symbols =
     [symbol ''Foo'' 128 ''Class'' [\<lparr>tagName = ''group'', tag_text = ''Others''\<rparr>],
      symbol ''Baz'' 64 ''Function'' []]"

definition others_data :: plugin_data where
  "others_data =
     \<lparr>groupedData = [''Foo''], deprecatedData = {},
      mapedTocData = [(''Others'', [''Foo''])],
      homePath = ''modules/_index_.docs.html'',
      regexp = [''group'', ''kind'', ''platform''], sortOrder = []\<rparr>"

text \<open>
  A build in which \<^verbatim>\<open>Foo\<close> is tagged \<^verbatim>\<open>@group Others\<close>, \<^verbatim>\<open>Bar\<close> is tagged \<^verbatim>\<open>@group Alpha\<close>
  and \<^verbatim>\<open>Baz\<close> has no grouping tag, and its record.
\<close>

definition others_alpha_symbols :: "Reflection list" where
  "others_alpha_symbols =
     [symbol ''Foo'' 128 ''Class'' [\<lparr>tagName = ''group'', tag_text = ''Others''\<rparr>],
      symbol ''Bar'' 256 ''Interface'' [\<lparr>tagName = ''group'', tag_text = ''Alpha''\<rparr>],
      symbol ''Baz'' 64 ''Function'' []]"

definition others_alpha_data :: plugin_data where
  "others_alpha_data =
     \<lparr>groupedData = [''Foo'', ''Bar''], deprecatedData = {},
      mapedTocData = [(''Others'', [''Foo'']), (''Alpha'', [''Bar''])],
      homePath = ''modules/_index_.docs.html'',
      regexp = [''group'', ''kind'', ''platform''], sortOrder = []\<rparr>"

text \<open>Options that add the given names to the grouping tags.\<close>

definition tag_options :: "string \<Rightarrow> Options" where
  "tag_options names =
     \<lparr>toc_group = Some names, tocKindSortOrder = None, homePath_option = None\<rparr>"

section \<open>The pages of a build\<close>

text \<open>
  Every page event refers to the same project, so each page is handled with the record
  as the pages before it have left it.
\<close>

fun render_pages ::
    "(Reflection \<Rightarrow> Reflection list \<Rightarrow> NavigationItem list option) \<Rightarrow> PageEvent list
       \<Rightarrow> plugin_data option \<Rightarrow> plugin_data option" where
  "render_pages buildToc [] pd = pd"
| "render_pages buildToc (page # pages) pd =
     render_pages buildToc pages
       (project_data (fst (onBeginRendererPage buildToc (page\<lparr>project_data := pd\<rparr>))))"

section \<open>The filter, item by item\<close>

text \<open>
  What the callback of \<^verbatim>\<open>filter\<close> decides for an item, and what it leaves of the item when
  it does not raise: whether the item is kept for the group, and the item with the
  flag and the parent it has got.
\<close>

definition passes_filter :: "plugin_data \<Rightarrow> string list js_get \<Rightarrow> NavigationItem \<Rightarrow> bool" where
  "passes_filter d groupedValue item =
     (case reflection item of
        None \<Rightarrow> False
      | Some r \<Rightarrow>
          \<not> regexp_test (regexp d) (kind_probe r)
          \<and> (case groupedValue of Own members \<Rightarrow> title item \<in> set members
              | Inherited \<Rightarrow> False | Undefined \<Rightarrow> False))"

section \<open>Strings, patterns and dictionaries\<close>


lemma occurs_in_sublist: "occurs_in p s = sublist p s"
  by (induction s) (simp_all add: sublist_Cons_right)

lemma occurs_in_set: "occurs_in p s \<Longrightarrow> set p \<subseteq> set s"
  by (simp add: occurs_in_sublist set_mono_sublist)

lemma show_nat_digits: "list_all is_digit (show_nat n)"
proof (induction n rule: show_nat.induct)
  case (1 n)
  show ?case
  proof (cases "n < 10")
    case True
    then show ?thesis by (simp add: show_nat.simps [of n] is_digit_def)
  next
    case False
    have "n mod 10 < 10" by simp
    then have "is_digit (char_of (48 + n mod 10))"
      unfolding is_digit_def by (simp add: take_bit_eq_mod)
    with False 1 show ?thesis by (simp add: show_nat.simps [of n])
  qed
qed

lemma show_nat_no_at: "CHR ''@'' \<notin> set (show_nat n)"
proof
  assume "CHR ''@'' \<in> set (show_nat n)"
  with show_nat_digits [of n] have "is_digit CHR ''@''" by (simp add: list_all_iff)
  then show False by (simp add: is_digit_def)
qed

lemma kind_probe_test:
  "regexp_test re (kind_probe r) = list_ex (\<lambda>t. prefix t (CHR ''!'' # show_nat (kind r))) re"
proof -
  have "occurs_in (CHR ''@'' # t) (kind_probe r) = prefix t (CHR ''!'' # show_nat (kind r))" for t
  proof -
    have "\<not> occurs_in (CHR ''@'' # t) (CHR ''!'' # show_nat (kind r))"
      using occurs_in_set [of "CHR ''@'' # t" "CHR ''!'' # show_nat (kind r)"] show_nat_no_at [of "kind r"]
      by auto
    then show ?thesis by (simp add: kind_probe_def)
  qed
  then show ?thesis by (simp add: regexp_test_def)
qed



lemma map_of_set_prop: "map_of (set_prop obj k v) = (map_of obj)(k \<mapsto> v)"
  by (induction obj k v rule: set_prop.induct) auto

lemma set_prop_absent: "map_of obj k = None \<Longrightarrow> set_prop obj k v = obj @ [(k, v)]"
  by (induction obj k v rule: set_prop.induct) (auto split: if_splits)

lemma set_prop_lists_own:
  "map_of obj k = Some l \<Longrightarrow>
     \<Union>(set ` snd ` set (set_prop obj k (l @ [x]))) = insert x (\<Union>(set ` snd ` set obj))"
  by (induction obj k "l @ [x]" rule: set_prop.induct) (auto split: if_splits)

lemma get_prop_Own: "get_prop obj k = Own v \<longleftrightarrow> map_of obj k = Some v"
  by (auto simp: get_prop_def split: option.splits)

lemma get_prop_Undefined: "get_prop obj k = Undefined \<Longrightarrow> map_of obj k = None"
  by (auto simp: get_prop_def split: option.splits if_splits)

lemma get_prop_Undefined_iff:
  "get_prop obj k = Undefined \<longleftrightarrow> map_of obj k = None \<and> k \<notin> set object_prototype"
  by (auto simp: get_prop_def split: option.splits if_splits)

lemma get_prop_Inherited: "get_prop obj k = Inherited \<Longrightarrow> map_of obj k = None"
  by (auto simp: get_prop_def split: option.splits if_splits)

lemma scan_tags_step:
  "scan_tags nm (t # ts) d =
     (let d1 = d\<lparr>deprecatedData := (if is_deprecated_tag t then insert nm (deprecatedData d)
                                      else deprecatedData d)\<rparr>
      in if is_grouping_tag (regexp d) t then
           (case get_prop (mapedTocData d) (groupKey_of t) of
              Undefined \<Rightarrow>
                Inr (d1\<lparr>groupedData := groupedData d @ [nm],
                        mapedTocData := set_prop (mapedTocData d) (groupKey_of t) [nm]\<rparr>)
            | Own l \<Rightarrow>
                Inr (d1\<lparr>groupedData := groupedData d @ [nm],
                        mapedTocData := set_prop (mapedTocData d) (groupKey_of t) (l @ [nm])\<rparr>)
            | Inherited \<Rightarrow> Inl TypeError)
         else scan_tags nm ts d1)"
  by (cases "is_deprecated_tag t") (simp_all add: Let_def split: js_get.splits)

declare scan_tags.simps(2) [simp del]

lemma scan_tags_frame:
  "scan_tags nm ts d = Inr d' \<Longrightarrow>
     regexp d' = regexp d \<and> homePath d' = homePath d \<and> sortOrder d' = sortOrder d"
proof (induction ts arbitrary: d)
  case Nil
  then show ?case by simp
next
  case (Cons t ts)
  show ?case
  proof (cases "is_grouping_tag (regexp d) t")
    case True
    with Cons.prems show ?thesis
      by (auto simp: scan_tags_step Let_def simp del: scan_tags.simps split: js_get.splits)
  next
    case False
    with Cons.prems Cons.IH show ?thesis
      by (fastforce simp: scan_tags_step Let_def simp del: scan_tags.simps)
  qed
qed

lemma scan_reflections_frame:
  "scan_reflections refs d = Inr d' \<Longrightarrow>
     regexp d' = regexp d \<and> homePath d' = homePath d \<and> sortOrder d' = sortOrder d"
proof (induction refs arbitrary: d)
  case Nil
  then show ?case by simp
next
  case (Cons r refs)
  then show ?case
    by (auto split: option.splits sum.splits dest!: scan_tags_frame)
qed

lemma all_members_own:
  "map_of obj k = Some l \<Longrightarrow> all_members (set_prop obj k (l @ [x])) = insert x (all_members obj)"
  unfolding all_members_def by (rule set_prop_lists_own)

lemma all_members_new:
  "map_of obj k = None \<Longrightarrow> all_members (set_prop obj k l) = set l \<union> all_members obj"
  by (auto simp: set_prop_absent all_members_def)

lemma scan_tags_lists:
  "scan_tags nm ts d = Inr d' \<Longrightarrow> set (groupedData d) = all_members (mapedTocData d) \<Longrightarrow>
     set (groupedData d') = all_members (mapedTocData d')"
proof (induction ts arbitrary: d)
  case Nil
  then show ?case by simp
next
  case (Cons t ts)
  show ?case
  proof (cases "is_grouping_tag (regexp d) t")
    case False
    with Cons.prems Cons.IH show ?thesis
      by (fastforce simp: scan_tags_step Let_def simp del: scan_tags.simps)
  next
    case True
    with Cons.prems show ?thesis
      by (auto simp: scan_tags_step Let_def all_members_own all_members_new get_prop_Own
            simp del: scan_tags.simps dest!: get_prop_Undefined split: js_get.splits)
  qed
qed

lemma scan_reflections_lists:
  "scan_reflections refs d = Inr d' \<Longrightarrow> set (groupedData d) = all_members (mapedTocData d) \<Longrightarrow>
     set (groupedData d') = all_members (mapedTocData d')"
proof (induction refs arbitrary: d)
  case Nil
  then show ?case by simp
next
  case (Cons r refs)
  then show ?case
    by (auto split: option.splits sum.splits dest: scan_tags_lists)
qed

lemma onBeginResolve_lists:
  "onBeginResolve this options pn refs = Inr d \<Longrightarrow>
     set (groupedData d) = all_members (mapedTocData d)"
  unfolding onBeginResolve_def
  by (erule scan_reflections_lists) (simp add: all_members_def)

section \<open>Which tags the grouping pattern recognises\<close>

lemma is_grouping_tag_iff:
  "is_grouping_tag re tag \<longleftrightarrow>
     (\<exists>t \<in> set re. sublist (CHR ''@'' # t) (CHR ''@'' # tagName tag))"
  by (simp add: is_grouping_tag_def regexp_test_def list_ex_iff occurs_in_sublist)

lemma is_grouping_tag_extends:
  "t \<in> set re \<Longrightarrow> prefix t (tagName tag) \<Longrightarrow> is_grouping_tag re tag"
  unfolding is_grouping_tag_iff
  by (rule bexI [of _ t]) (simp_all add: prefix_imp_sublist)

lemma is_grouping_tag_exact: "tagName tag \<in> set re \<Longrightarrow> is_grouping_tag re tag"
  by (rule is_grouping_tag_extends [of "tagName tag"]) simp_all

lemma is_deprecated_tag_iff: "is_deprecated_tag tag \<longleftrightarrow> tagName tag = ''deprecated''"
  by (simp add: is_deprecated_tag_def DEPRECATED_REGEXP_test_def)

lemma default_regexp:
  "plugin_regexp (onBegin default_options) = [''group'', ''kind'', ''platform'']"
  by (simp add: onBegin_def groupTags_def defaultTags_def default_options_def)

lemma group_tag:
  "is_grouping_tag [''group'', ''kind'', ''platform''] \<lparr>tagName = ''group'', tag_text = s\<rparr>"
  by (rule is_grouping_tag_exact) simp

lemma default_sortOrder: "plugin_sortOrder (onBegin default_options) = []"
  by (simp add: onBegin_def default_options_def sortOrder_of_def)

lemma default_homePath_option: "homePath_option default_options = None"
  by (simp add: default_options_def)

text \<open>
  C1. The claim: a tag is recognised exactly when its name is one of the configured
  names, and a name that only extends one, such as \<^verbatim>\<open>grouping\<close>, is not. The pattern has
  no anchor at its end (\<^verbatim>\<open>DEPRECATED_REGEXP\<close> has both), so with no option set the tag
  \<^verbatim>\<open>@grouping Alpha\<close> is recognised although \<^verbatim>\<open>grouping\<close> is not a configured name, and
  the Indexer puts the symbol into the group \<^verbatim>\<open>Alpha\<close>.
\<close>

theorem grouping_tag_name_extended:
  "''grouping'' \<notin> set (plugin_regexp (onBegin default_options))
   \<and> is_grouping_tag (plugin_regexp (onBegin default_options))
        \<lparr>tagName = ''grouping'', tag_text = ''Alpha''\<rparr>
   \<and> (\<exists>d. onBeginResolve (onBegin default_options) default_options ''docs''
              [symbol ''Foo'' 128 ''Class'' [\<lparr>tagName = ''grouping'', tag_text = ''Alpha''\<rparr>]]
            = Inr d
          \<and> mapedTocData d = [(''Alpha'', [''Foo''])])"
proof -
  have re: "plugin_regexp (onBegin default_options) = [''group'', ''kind'', ''platform'']"
    by (rule default_regexp)
  have tag: "is_grouping_tag [''group'', ''kind'', ''platform'']
               \<lparr>tagName = ''grouping'', tag_text = ''Alpha''\<rparr>"
    by (rule is_grouping_tag_extends [of "''group''"]) simp_all
  have key: "groupKey_of \<lparr>tagName = ''grouping'', tag_text = ''Alpha''\<rparr> = ''Alpha''"
    by (simp add: groupKey_of_def)
  have "onBeginResolve (onBegin default_options) default_options ''docs''
              [symbol ''Foo'' 128 ''Class'' [\<lparr>tagName = ''grouping'', tag_text = ''Alpha''\<rparr>]]
          = Inr \<lparr>groupedData = [''Foo''], deprecatedData = {},
                 mapedTocData = [(''Alpha'', [''Foo''])],
                 homePath = ''modules/_index_.docs.html'',
                 regexp = [''group'', ''kind'', ''platform''], sortOrder = []\<rparr>"
    by (simp add: onBeginResolve_def symbol_def re tag key scan_tags_step Let_def
          get_prop_def object_prototype_def is_deprecated_tag_iff default_homePath_def
          default_sortOrder default_homePath_option del: scan_tags.simps)
  then show ?thesis
    using re tag by simp
qed

section \<open>The tag loop of the Indexer\<close>

lemma groupKey_of_line: "list_all (\<lambda>c. c \<noteq> CHR 0x0D \<and> c \<noteq> CHR 0x0A) s \<Longrightarrow>
    groupKey_of \<lparr>tagName = n, tag_text = s\<rparr> = s"
proof -
  assume "list_all (\<lambda>c. c \<noteq> CHR 0x0D \<and> c \<noteq> CHR 0x0A) s"
  then have "split_lines s = [s]"
    by (induction s) auto
  then show ?thesis by (simp add: groupKey_of_def)
qed

lemma groupKey_of_empty: "groupKey_of \<lparr>tagName = n, tag_text = []\<rparr> = []"
  by (simp add: groupKey_of_def)

text \<open>Tags that are no grouping tags only add to \<^verbatim>\<open>deprecatedData\<close>.\<close>

lemma scan_tags_no_group:
  "list_all (\<lambda>t. \<not> is_grouping_tag (regexp d) t) ts \<Longrightarrow>
     scan_tags nm ts d =
       Inr (d\<lparr>deprecatedData :=
                 (if list_ex is_deprecated_tag ts then insert nm (deprecatedData d)
                  else deprecatedData d)\<rparr>)"
proof (induction ts arbitrary: d)
  case Nil
  then show ?case by simp
next
  case (Cons t ts)
  let ?d1 = "d\<lparr>deprecatedData := (if is_deprecated_tag t then insert nm (deprecatedData d)
                                      else deprecatedData d)\<rparr>"
  from Cons.prems have "list_all (\<lambda>t. \<not> is_grouping_tag (regexp ?d1) t) ts"
    by simp
  from Cons.IH [OF this] Cons.prems show ?case
    by (simp add: scan_tags_step Let_def del: scan_tags.simps)
qed

text \<open>
  The first grouping tag decides: the tags before it only add to \<^verbatim>\<open>deprecatedData\<close>, the
  tags after it are not read.
\<close>

lemma scan_tags_first_group:
  assumes "list_all (\<lambda>t. \<not> is_grouping_tag (regexp d) t) pre"
    and "is_grouping_tag (regexp d) g"
  shows "scan_tags nm (pre @ g # post) d =
     (let d1 = d\<lparr>deprecatedData :=
                    (if list_ex is_deprecated_tag (pre @ [g]) then insert nm (deprecatedData d)
                     else deprecatedData d)\<rparr>
      in case get_prop (mapedTocData d) (groupKey_of g) of
           Undefined \<Rightarrow>
             Inr (d1\<lparr>groupedData := groupedData d @ [nm],
                     mapedTocData := set_prop (mapedTocData d) (groupKey_of g) [nm]\<rparr>)
         | Own l \<Rightarrow>
             Inr (d1\<lparr>groupedData := groupedData d @ [nm],
                     mapedTocData := set_prop (mapedTocData d) (groupKey_of g) (l @ [nm])\<rparr>)
         | Inherited \<Rightarrow> Inl TypeError)"
  using assms
proof (induction pre arbitrary: d)
  case Nil
  then show ?case
    by (simp add: scan_tags_step Let_def del: scan_tags.simps split: js_get.splits)
next
  case (Cons t pre)
  let ?d1 = "d\<lparr>deprecatedData := (if is_deprecated_tag t then insert nm (deprecatedData d)
                                      else deprecatedData d)\<rparr>"
  from Cons.prems have a: "list_all (\<lambda>t. \<not> is_grouping_tag (regexp ?d1) t) pre"
    and b: "is_grouping_tag (regexp ?d1) g" and c: "\<not> is_grouping_tag (regexp d) t"
    by simp_all
  have "scan_tags nm ((t # pre) @ g # post) d = scan_tags nm (pre @ g # post) ?d1"
    using c by (simp add: scan_tags_step Let_def del: scan_tags.simps)
  also note Cons.IH [OF a b]
  finally show ?case
    by (simp add: Let_def split: js_get.splits)
qed

text \<open>The scan never removes anything.\<close>

lemma scan_tags_mono:
  "scan_tags nm ts d = Inr d' \<Longrightarrow>
     deprecatedData d \<subseteq> deprecatedData d'
     \<and> (\<forall>k l. map_of (mapedTocData d) k = Some l \<longrightarrow>
            (\<exists>l'. map_of (mapedTocData d') k = Some (l @ l')))"
proof (induction ts arbitrary: d)
  case Nil
  then show ?case by simp
next
  case (Cons t ts)
  let ?d1 = "d\<lparr>deprecatedData := (if is_deprecated_tag t then insert nm (deprecatedData d)
                                      else deprecatedData d)\<rparr>"
  show ?case
  proof (cases "is_grouping_tag (regexp d) t")
    case False
    with Cons.prems have "scan_tags nm ts ?d1 = Inr d'"
      by (simp add: scan_tags_step Let_def del: scan_tags.simps)
    from Cons.IH [OF this] show ?thesis by auto
  next
    case True
    with Cons.prems show ?thesis
      by (auto simp: scan_tags_step Let_def map_of_set_prop get_prop_Own
            get_prop_Undefined_iff simp del: scan_tags.simps split: js_get.splits)
  qed
qed

lemma scan_reflections_mono:
  "scan_reflections refs d = Inr d' \<Longrightarrow>
     deprecatedData d \<subseteq> deprecatedData d'
     \<and> (\<forall>k l. map_of (mapedTocData d) k = Some l \<longrightarrow>
            (\<exists>l'. map_of (mapedTocData d') k = Some (l @ l')))"
proof (induction refs arbitrary: d)
  case Nil
  then show ?case by simp
next
  case (Cons r refs)
  show ?case
  proof (cases "\<exists>c ts. comment r = Some c \<and> tags c = Some ts")
    case False
    with Cons.prems have "scan_reflections refs d = Inr d'"
      by (auto split: option.splits)
    from Cons.IH [OF this] show ?thesis .
  next
    case True
    then obtain c ts where c: "comment r = Some c" "tags c = Some ts" by blast
    with Cons.prems obtain d1 where d1: "scan_tags (name r) ts d = Inr d1"
      and rest: "scan_reflections refs d1 = Inr d'"
      by (auto split: sum.splits)
    from scan_tags_mono [OF d1] Cons.IH [OF rest] show ?thesis
      by (fastforce dest: subsetD)
  qed
qed

text \<open>
  C6. The claim: for every symbol the first tag that matches the grouping pattern
  assigns the membership, and the name is appended to the list keyed by the first line
  of that tag's body. \<^verbatim>\<open>mapedTocData\<close> is an object literal, so for a key that names a
  member of \<^verbatim>\<open>Object.prototype\<close> the test \<^verbatim>\<open>!mapedTocData[groupKey]\<close> finds that member, no
  list is created, and \<^verbatim>\<open>push\<close> is called on it: for the tag \<^verbatim>\<open>@kind constructor\<close> the
  Indexer raises and appends nothing.
\<close>

theorem group_key_constructor_raises:
  "onBeginResolve (onBegin default_options) default_options ''docs''
     [symbol ''Widget'' 512 ''Constructor''
        [\<lparr>tagName = ''kind'', tag_text = ''constructor''\<rparr>]]
   = Inl TypeError"
proof -
  have tag: "is_grouping_tag [''group'', ''kind'', ''platform'']
               \<lparr>tagName = ''kind'', tag_text = ''constructor''\<rparr>"
    by (rule is_grouping_tag_exact) simp
  have key: "groupKey_of \<lparr>tagName = ''kind'', tag_text = ''constructor''\<rparr> = ''constructor''"
    by (simp add: groupKey_of_def)
  show ?thesis
    by (simp add: onBeginResolve_def symbol_def default_regexp tag key scan_tags_step Let_def
          get_prop_def object_prototype_def del: scan_tags.simps)
qed


section \<open>Object.keys, the ungrouped list and the sort\<close>

lemma set_Object_keys: "set (Object_keys obj) = fst ` set obj"
  by (auto simp: Object_keys_def)

lemma length_Object_keys: "length (Object_keys obj) = length obj"
proof -
  have "length (filter is_array_index (map fst obj))
        + length (filter (\<lambda>k. \<not> is_array_index k) (map fst obj)) = length (map fst obj)"
    by (rule sum_length_filter_compl)
  then show ?thesis by (simp add: Object_keys_def)
qed

lemma Object_keys_empty: "Object_keys obj = [] \<longleftrightarrow> obj = []"
  using length_Object_keys [of obj] by (metis length_0_conv)

lemma Object_keys_single: "Object_keys [(k, v)] = [k]"
  by (simp add: Object_keys_def)

text \<open>What the step of lines 126 to 134 leaves of the record.\<close>

lemma set_ungrouped_cases:
  assumes "set_ungrouped d toc_items = Inr d1"
  shows "d1 = d \<or>
     (\<exists>items. toc_items = Some items
        \<and> map_of (mapedTocData d) DEFAULT_UNGROUPED_NAME = None
        \<and> [n \<leftarrow> map title items. n \<notin> set (groupedData d)] \<noteq> []
        \<and> d1 = d\<lparr>mapedTocData := mapedTocData d
                    @ [(DEFAULT_UNGROUPED_NAME, [n \<leftarrow> map title items. n \<notin> set (groupedData d)])]\<rparr>)"
  using assms
  by (auto simp: set_ungrouped_def Let_def filter_map comp_def set_prop_absent
        get_prop_Undefined_iff split: js_get.splits option.splits if_splits)

lemma set_ungrouped_idem:
  assumes "set_ungrouped d toc_items = Inr d1"
  shows "set_ungrouped d1 toc_items = Inr d1"
proof -
  from set_ungrouped_cases [OF assms] show ?thesis
  proof
    assume "d1 = d"
    with assms show ?thesis by simp
  next
    assume "\<exists>items. toc_items = Some items
        \<and> map_of (mapedTocData d) DEFAULT_UNGROUPED_NAME = None
        \<and> [n \<leftarrow> map title items. n \<notin> set (groupedData d)] \<noteq> []
        \<and> d1 = d\<lparr>mapedTocData := mapedTocData d
                    @ [(DEFAULT_UNGROUPED_NAME, [n \<leftarrow> map title items. n \<notin> set (groupedData d)])]\<rparr>"
    then have "\<exists>l. map_of (mapedTocData d1) DEFAULT_UNGROUPED_NAME = Some l"
      by (auto simp: map_of_append map_add_def)
    then show ?thesis
      by (auto simp: set_ungrouped_def get_prop_def)
  qed
qed

lemma set_ungrouped_keys:
  "set_ungrouped d toc_items = Inr d1 \<Longrightarrow> mapedTocData d \<noteq> [] \<Longrightarrow> mapedTocData d1 \<noteq> []"
  by (auto dest!: set_ungrouped_cases)

text \<open>Group roots have no reflection, so the comparison function raises on them.\<close>

lemma js_sort_no_reflection:
  "list_all (\<lambda>g. reflection g = None) roots \<Longrightarrow>
     js_sort (sort_compare order) roots =
       (if length roots \<le> 1 then Inr roots else Inl TypeError)"
proof (induction roots)
  case Nil
  then show ?case by simp
next
  case (Cons g roots)
  then show ?case
    by (cases roots) (auto simp: sort_compare_def)
qed

lemma build_roots_no_reflection:
  "build_roots d keys toc_items = (items', Inr roots) \<Longrightarrow>
     list_all (\<lambda>g. reflection g = None) roots \<and> map title roots = keys"
proof (induction keys arbitrary: toc_items roots)
  case Nil
  then show ?case by simp
next
  case (Cons key keys)
  then show ?case
    by (auto simp: group_root_def new_NavigationItem_def
          split: option.splits prod.splits sum.splits)
qed

text \<open>The function run again with the record it has left gives the same outcome.\<close>

lemma buildGroupTocContent_again:
  "buildGroupTocContent
     (page\<lparr>project_data := project_data (fst (buildGroupTocContent page))\<rparr>)
   = buildGroupTocContent page"
proof (cases "project_data page")
  case None
  then show ?thesis by (simp add: buildGroupTocContent_def)
next
  case (Some d)
  show ?thesis
  proof (cases "Object_keys (mapedTocData d) = []")
    case True
    with Some show ?thesis by (simp add: buildGroupTocContent_def)
  next
    case keys: False
    show ?thesis
    proof (cases "set_ungrouped d (nodes page)")
      case (Inl e)
      with Some keys show ?thesis by (simp add: buildGroupTocContent_def)
    next
      case (Inr d1)
      from Some keys Inr have after: "project_data (fst (buildGroupTocContent page)) = Some d1"
        by (simp add: buildGroupTocContent_def split: prod.splits sum.splits)
      have keys1: "Object_keys (mapedTocData d1) \<noteq> []"
        using set_ungrouped_keys [OF Inr] keys by (simp add: Object_keys_empty)
      have again: "set_ungrouped d1 (nodes page) = Inr d1"
        by (rule set_ungrouped_idem [OF Inr])
      show ?thesis
        unfolding after
        using Some keys Inr keys1 again
        by (simp add: buildGroupTocContent_def split: prod.splits sum.splits)
    qed
  qed
qed

text \<open>The function writes nothing but the project's record, the items and the child list.\<close>

lemma buildGroupTocContent_frame:
  "(fst (buildGroupTocContent page))\<lparr>nodes := n, toc := t\<rparr>
   = page\<lparr>project_data := project_data (fst (buildGroupTocContent page)), nodes := n, toc := t\<rparr>"
  by (simp add: buildGroupTocContent_def split: option.splits prod.splits sum.splits)

lemma onBeginRendererPage_model:
  "model (fst (onBeginRendererPage buildToc page)) = model page"
  by (simp add: onBeginRendererPage_def buildGroupTocContent_def
        split: page_model.splits option.splits prod.splits sum.splits)

text \<open>
  C7. Running the Regrouper twice on the same page, the same default tree and the same
  Group Index gives the same groups in the same order with the same members. The second
  run is the run on the page as the first run has left it: \<^verbatim>\<open>onBeginRendererPage\<close> builds the
  default tree anew, and the record of the project is the one the first run has left
  (with the list \<^verbatim>\<open>Others\<close> it may have stored). Its outcome, the page on exit and the
  exception if any, is the outcome of the first run; the same holds for
  \<^verbatim>\<open>buildGroupTocContent\<close> on the same default tree with the record left by the first run.
\<close>

theorem regrouper_run_twice:
  "onBeginRendererPage buildToc (fst (onBeginRendererPage buildToc page))
     = onBeginRendererPage buildToc page
   \<and> buildGroupTocContent
       (page\<lparr>project_data := project_data (fst (buildGroupTocContent page))\<rparr>)
     = buildGroupTocContent page"
proof
  show "onBeginRendererPage buildToc (fst (onBeginRendererPage buildToc page))
     = onBeginRendererPage buildToc page"
  proof (cases "model page")
    case OtherModel
    then show ?thesis by (simp add: onBeginRendererPage_def)
  next
    case (ReflectionModel m)
    note m = this
    show ?thesis
    proof (cases "walk_up m []")
      case (Inl e)
      with m show ?thesis by (simp add: onBeginRendererPage_def)
    next
      case (Inr found)
      obtain m' trail where found: "found = (m', trail)" by (cases found)
      let ?q = "page\<lparr>nodes := buildToc m' trail, toc := Default\<rparr>"
      have first: "onBeginRendererPage buildToc page = buildGroupTocContent ?q"
        using m Inr found by (simp add: onBeginRendererPage_def)
      have "model (fst (buildGroupTocContent ?q)) = ReflectionModel m"
        using onBeginRendererPage_model [of buildToc page] m by (simp add: first)
      then have "onBeginRendererPage buildToc (fst (buildGroupTocContent ?q))
          = buildGroupTocContent
              ((fst (buildGroupTocContent ?q))\<lparr>nodes := buildToc m' trail, toc := Default\<rparr>)"
        using Inr found by (simp add: onBeginRendererPage_def)
      also have "\<dots> = buildGroupTocContent
              (?q\<lparr>project_data := project_data (fst (buildGroupTocContent ?q))\<rparr>)"
        unfolding buildGroupTocContent_frame
        by (rule arg_cong [of _ _ buildGroupTocContent], rule PageEvent.equality) simp_all
      also have "\<dots> = buildGroupTocContent ?q"
        by (rule buildGroupTocContent_again)
      finally show ?thesis by (simp add: first)
    qed
  qed
next
  show "buildGroupTocContent
       (page\<lparr>project_data := project_data (fst (buildGroupTocContent page))\<rparr>)
     = buildGroupTocContent page"
    by (rule buildGroupTocContent_again)
qed

section \<open>A build without grouping tags\<close>

lemma scan_reflections_no_group:
  assumes "\<forall>r \<in> set refs. \<forall>c ts. comment r = Some c \<longrightarrow> tags c = Some ts \<longrightarrow>
             list_all (\<lambda>t. \<not> is_grouping_tag (regexp d) t) ts"
  shows "\<exists>d'. scan_reflections refs d = Inr d' \<and> mapedTocData d' = mapedTocData d
           \<and> groupedData d' = groupedData d"
  using assms
proof (induction refs arbitrary: d)
  case Nil
  then show ?case by simp
next
  case (Cons r refs)
  show ?case
  proof (cases "\<exists>c ts. comment r = Some c \<and> tags c = Some ts")
    case False
    then have "scan_reflections (r # refs) d = scan_reflections refs d"
      by (auto split: option.splits)
    with Cons show ?thesis by simp
  next
    case True
    then obtain c ts where c: "comment r = Some c" "tags c = Some ts" by blast
    let ?d1 = "d\<lparr>deprecatedData :=
                 (if list_ex is_deprecated_tag ts then insert (name r) (deprecatedData d)
                  else deprecatedData d)\<rparr>"
    from Cons.prems c have "list_all (\<lambda>t. \<not> is_grouping_tag (regexp d) t) ts" by simp
    then have step: "scan_tags (name r) ts d = Inr ?d1"
      by (rule scan_tags_no_group)
    have "\<forall>r \<in> set refs. \<forall>c ts. comment r = Some c \<longrightarrow> tags c = Some ts \<longrightarrow>
             list_all (\<lambda>t. \<not> is_grouping_tag (regexp ?d1) t) ts"
      using Cons.prems by simp
    from Cons.IH [OF this] c step show ?thesis by simp
  qed
qed

text \<open>
  C9. When no tag of any symbol matches the grouping pattern, the Indexer returns a
  record whose \<^verbatim>\<open>mapedTocData\<close> is empty, and with an empty \<^verbatim>\<open>mapedTocData\<close> the Regrouper
  returns every page as it got it: the child list is not replaced, no item is written,
  nothing is raised.
\<close>

theorem no_grouping_tag_no_regrouping:
  assumes "\<forall>r \<in> set refs. \<forall>c ts. comment r = Some c \<longrightarrow> tags c = Some ts \<longrightarrow>
             list_all (\<lambda>t. \<not> is_grouping_tag (plugin_regexp this) t) ts"
  shows "\<exists>d. onBeginResolve this options project_name refs = Inr d
           \<and> mapedTocData d = []
           \<and> (\<forall>page. project_data page = Some d \<longrightarrow> buildGroupTocContent page = (page, None))"
proof -
  let ?d0 = "\<lparr>groupedData = [], deprecatedData = {}, mapedTocData = [],
        homePath = (case homePath_option options of
                      None \<Rightarrow> default_homePath project_name
                    | Some h \<Rightarrow> if h = [] then default_homePath project_name else h),
        regexp = plugin_regexp this, sortOrder = plugin_sortOrder this\<rparr>"
  have "\<forall>r \<in> set refs. \<forall>c ts. comment r = Some c \<longrightarrow> tags c = Some ts \<longrightarrow>
             list_all (\<lambda>t. \<not> is_grouping_tag (regexp ?d0) t) ts"
    using assms by simp
  from scan_reflections_no_group [OF this]
  obtain d where d: "scan_reflections refs ?d0 = Inr d" "mapedTocData d = []"
    by auto
  have "buildGroupTocContent page = (page, None)" if "project_data page = Some d" for page
    using that d(2) by (simp add: buildGroupTocContent_def Object_keys_def)
  with d show ?thesis
    by (auto simp: onBeginResolve_def)
qed

theorem no_grouping_tag_no_regrouping_witness:
  "\<exists>d. onBeginResolve (onBegin default_options) default_options ''docs''
          [symbol ''Baz'' 128 ''Class'' [\<lparr>tagName = ''deprecated'', tag_text = ''''\<rparr>]] = Inr d
       \<and> mapedTocData d = []
       \<and> buildGroupTocContent
           \<lparr>model = OtherModel, project_data = Some d,
            nodes = Some [item_of (symbol ''Baz'' 128 ''Class'' [])], toc = Default\<rparr>
         = (\<lparr>model = OtherModel, project_data = Some d,
             nodes = Some [item_of (symbol ''Baz'' 128 ''Class'' [])], toc = Default\<rparr>, None)"
proof -
  have "\<not> is_grouping_tag [''group'', ''kind'', ''platform'']
            \<lparr>tagName = ''deprecated'', tag_text = ''''\<rparr>"
    by (simp add: is_grouping_tag_def regexp_test_def)
  then have "\<forall>r \<in> set [symbol ''Baz'' 128 ''Class'' [\<lparr>tagName = ''deprecated'', tag_text = ''''\<rparr>]].
        \<forall>c ts. comment r = Some c \<longrightarrow> tags c = Some ts \<longrightarrow>
             list_all (\<lambda>t. \<not> is_grouping_tag (plugin_regexp (onBegin default_options)) t) ts"
    by (auto simp: symbol_def default_regexp)
  from no_grouping_tag_no_regrouping [OF this, of default_options "''docs''"]
  show ?thesis by auto
qed

section \<open>The sort of the group roots\<close>

lemma scenario1_index:
  "onBeginResolve (onBegin default_options) default_options ''docs'' scenario1 = Inr scenario1_data"
  by (simp add: onBeginResolve_def scenario1_def symbol_def default_regexp group_tag
        groupKey_of_def scan_tags_step Let_def get_prop_def object_prototype_def
        default_homePath_def default_sortOrder default_homePath_option scenario1_data_def
        is_deprecated_tag_iff)

lemma length_build_roots:
  "build_roots d keys toc_items = (items', Inr roots) \<Longrightarrow> length roots = length keys"
  using build_roots_no_reflection [of d keys toc_items items' roots]
  by (metis length_map)

text \<open>
  On two items that have reflections with kind strings the comparison function gives
  the difference of the ranks, as the ordering by kind needs it.
\<close>

lemma sort_compare_with_reflections:
  "reflection a = Some ra \<Longrightarrow> reflection b = Some rb \<Longrightarrow> kindString ra = Some aKind \<Longrightarrow>
     kindString rb = Some bKind \<Longrightarrow>
     sort_compare order a b = Inr (compareKind order aKind bKind)"
  by (simp add: sort_compare_def)

lemma compareKind_ranks:
  "rank_of order a = Some x \<Longrightarrow> rank_of order b = Some y \<Longrightarrow>
     compareKind order a b = Some (x - y)"
  by (simp add: compareKind_def)

lemma compareKind_interface_class:
  "compareKind (sortOrder_of [''Interface'', ''Class'']) ''Interface'' ''Class'' = Some (- 1)"
  by code_simp

text \<open>With two keys or more the sort raises, and the child list is not replaced.\<close>

lemma two_groups_raise:
  assumes "project_data page = Some d" and "set_ungrouped d (nodes page) = Inr d1"
    and "2 \<le> length (mapedTocData d1)" and "mapedTocData d \<noteq> []"
  shows "snd (buildGroupTocContent page) = Some TypeError
         \<and> toc (fst (buildGroupTocContent page)) = toc page
         \<and> project_data (fst (buildGroupTocContent page)) = Some d1"
proof -
  obtain items' r where br: "build_roots d1 (Object_keys (mapedTocData d1)) (nodes page) = (items', r)"
    by (cases "build_roots d1 (Object_keys (mapedTocData d1)) (nodes page)")
  have keys: "Object_keys (mapedTocData d) \<noteq> []"
    using assms(4) by (simp add: Object_keys_empty)
  show ?thesis
  proof (cases r)
    case (Inl e)
    with br assms keys show ?thesis
      by (cases e) (simp add: buildGroupTocContent_def)
  next
    case (Inr roots)
    with br have "list_all (\<lambda>g. reflection g = None) roots" "length roots = length (mapedTocData d1)"
      using build_roots_no_reflection [of d1 _ "nodes page" items' roots]
        length_build_roots [of d1 _ "nodes page" items' roots]
      by (simp_all add: length_Object_keys)
    with assms(3) have "js_sort (sort_compare (sortOrder d1)) roots = Inl TypeError"
      by (simp add: js_sort_no_reflection)
    with br Inr assms keys show ?thesis
      by (simp add: buildGroupTocContent_def)
  qed
qed

text \<open>
  C3. The claim: the new group nodes are sorted ascending by the rank of a kind string,
  groups of equal rank keeping their construction order. The comparison function reads
  \<^verbatim>\<open>a.reflection.kindString\<close> of the group roots themselves, and a group root is made by
  \<^verbatim>\<open>new NavigationItem(key, homePath)\<close>, which sets no reflection. So the first comparison
  raises: for the first scenario of the specification (groups \<^verbatim>\<open>Alpha\<close> and \<^verbatim>\<open>Others\<close>) the
  Regrouper ends with a \<^verbatim>\<open>TypeError\<close> and the page keeps its default child list. By
  \<open>two_groups_raise\<close> this is so whenever there are two groups or more.
\<close>

theorem scenario1_raises:
  "\<exists>d. onBeginResolve (onBegin default_options) default_options ''docs'' scenario1 = Inr d
      \<and> mapedTocData d = [(''Alpha'', [''Foo'', ''Bar''])]
      \<and> snd (buildGroupTocContent (default_page (ReflectionModel docs_project) d scenario1))
          = Some TypeError
      \<and> toc (fst (buildGroupTocContent (default_page (ReflectionModel docs_project) d scenario1)))
          = Default"
proof -
  let ?page = "default_page (ReflectionModel docs_project) scenario1_data scenario1"
  let ?d1 = "scenario1_data\<lparr>mapedTocData := [(''Alpha'', [''Foo'', ''Bar'']), (''Others'', [''Baz''])]\<rparr>"
  have a: "project_data ?page = Some scenario1_data" "toc ?page = Default"
    by (simp_all add: default_page_def)
  have b: "set_ungrouped scenario1_data (nodes ?page) = Inr ?d1"
    by (simp add: set_ungrouped_def default_page_def scenario1_def item_of_def symbol_def
          new_NavigationItem_def scenario1_data_def get_prop_def object_prototype_def
          DEFAULT_UNGROUPED_NAME_def)
  have "snd (buildGroupTocContent ?page) = Some TypeError
         \<and> toc (fst (buildGroupTocContent ?page)) = toc ?page
         \<and> project_data (fst (buildGroupTocContent ?page)) = Some ?d1"
    by (rule two_groups_raise [OF a(1) b]) (simp_all add: scenario1_data_def)
  with a(2) scenario1_index show ?thesis
    by (auto simp: scenario1_data_def)
qed


section \<open>Which pages are regrouped\<close>

lemma walk_up_top:
  "isProjectReflection m \<or> kindOf m SomeModule \<Longrightarrow> walk_up m trail = Inr (m, trail)"
  by (cases m) auto

lemma alpha_index:
  "onBeginResolve (onBegin default_options) default_options ''docs'' alpha_symbols = Inr alpha_data"
  by (simp add: onBeginResolve_def alpha_symbols_def symbol_def default_regexp group_tag
        groupKey_of_def scan_tags_step Let_def get_prop_def object_prototype_def
        default_homePath_def default_sortOrder default_homePath_option alpha_data_def
        is_deprecated_tag_iff)

lemma default_names_exclude_no_kind:
  "\<not> regexp_test [''group'', ''kind'', ''platform''] (kind_probe r)"
  by (simp add: kind_probe_test)

lemma alpha_page_regrouped:
  "buildGroupTocContent (default_page m alpha_data alpha_symbols)
   = (\<lparr>model = m, project_data = Some alpha_data,
       nodes = Some [(item_of (hd alpha_symbols))\<lparr>nav_parent := Some (GroupRoot ''Alpha'')\<rparr>],
       toc = Regrouped [group_root alpha_data ''Alpha'' [0]]\<rparr>, None)"
proof -
  have keys: "Object_keys (mapedTocData alpha_data) = [''Alpha'']"
    by (simp add: alpha_data_def Object_keys_single)
  have ung: "set_ungrouped alpha_data (Some (map item_of alpha_symbols)) = Inr alpha_data"
    by (simp add: set_ungrouped_def alpha_data_def alpha_symbols_def item_of_def symbol_def
          new_NavigationItem_def get_prop_def object_prototype_def DEFAULT_UNGROUPED_NAME_def)
  have item: "filter_item alpha_data ''Alpha'' (Own [''Foo'']) (item_of (hd alpha_symbols))
       = Inr (True, (item_of (hd alpha_symbols))\<lparr>nav_parent := Some (GroupRoot ''Alpha'')\<rparr>)"
    by (simp add: filter_item_def item_of_def alpha_symbols_def symbol_def new_NavigationItem_def
          alpha_data_def default_names_exclude_no_kind)
  have roots: "build_roots alpha_data [''Alpha''] (Some (map item_of alpha_symbols))
       = (Some [(item_of (hd alpha_symbols))\<lparr>nav_parent := Some (GroupRoot ''Alpha'')\<rparr>],
          Inr [group_root alpha_data ''Alpha'' [0]])"
    using item by (simp add: alpha_symbols_def get_prop_def alpha_data_def)
  have sorted: "js_sort (sort_compare (sortOrder alpha_data)) [group_root alpha_data ''Alpha'' [0]]
       = Inr [group_root alpha_data ''Alpha'' [0]]"
    by simp
  show ?thesis
    by (simp add: buildGroupTocContent_def default_page_def keys ung roots sorted
          del: build_roots.simps js_sort.simps)
qed

text \<open>
  C2, as the code has it. A page whose model is no reflection is returned as it came. A
  page whose model is the project or a module is handled as every other page of a
  reflection: the loop stops at once, with the model itself and an empty trail, the
  default tree is built for it, and \<^verbatim>\<open>buildGroupTocContent\<close> runs on that tree.
\<close>

theorem project_and_module_pages_are_regrouped:
  "(model page = OtherModel \<longrightarrow> onBeginRendererPage buildToc page = (page, None))
   \<and> (model page = ReflectionModel m \<longrightarrow> isProjectReflection m \<or> kindOf m SomeModule \<longrightarrow>
        onBeginRendererPage buildToc page
          = buildGroupTocContent (page\<lparr>nodes := buildToc m [], toc := Default\<rparr>))"
  by (simp add: onBeginRendererPage_def walk_up_top)

theorem project_and_module_pages_are_regrouped_witness:
  "isProjectReflection docs_project
   \<and> onBeginRendererPage (buildToc_of alpha_symbols)
        \<lparr>model = ReflectionModel docs_project, project_data = Some alpha_data,
         nodes = None, toc = Default\<rparr>
     = buildGroupTocContent
        \<lparr>model = ReflectionModel docs_project, project_data = Some alpha_data,
         nodes = buildToc_of alpha_symbols docs_project [], toc = Default\<rparr>
   \<and> onBeginRendererPage (buildToc_of alpha_symbols)
        \<lparr>model = OtherModel, project_data = Some alpha_data, nodes = None, toc = Default\<rparr>
     = (\<lparr>model = OtherModel, project_data = Some alpha_data, nodes = None, toc = Default\<rparr>, None)"
  using project_and_module_pages_are_regrouped
    [of "\<lparr>model = ReflectionModel docs_project, project_data = Some alpha_data,
         nodes = None, toc = Default\<rparr>" "buildToc_of alpha_symbols" docs_project]
    project_and_module_pages_are_regrouped
    [of "\<lparr>model = OtherModel, project_data = Some alpha_data, nodes = None, toc = Default\<rparr>"
        "buildToc_of alpha_symbols" docs_project]
  by (simp add: docs_project_def)

text \<open>
  The claim C2 itself, that the page of the project root keeps its default tree, fails:
  for the build with the single symbol \<^verbatim>\<open>Foo\<close> in group \<^verbatim>\<open>Alpha\<close> the child list of the
  project's page is replaced by the group root \<^verbatim>\<open>Alpha\<close>, and \<^verbatim>\<open>Foo\<close> gets it as parent.
\<close>

theorem project_page_regrouped:
  "isProjectReflection docs_project
   \<and> onBeginResolve (onBegin default_options) default_options ''docs'' alpha_symbols
       = Inr alpha_data
   \<and> onBeginRendererPage (buildToc_of alpha_symbols)
        \<lparr>model = ReflectionModel docs_project, project_data = Some alpha_data,
         nodes = None, toc = Default\<rparr>
     = (\<lparr>model = ReflectionModel docs_project, project_data = Some alpha_data,
         nodes = Some [(item_of (hd alpha_symbols))\<lparr>nav_parent := Some (GroupRoot ''Alpha'')\<rparr>],
         toc = Regrouped [group_root alpha_data ''Alpha'' [0]]\<rparr>, None)"
proof -
  have "walk_up docs_project [] = Inr (docs_project, [])"
    by (rule walk_up_top) (simp add: docs_project_def)
  then have "onBeginRendererPage (buildToc_of alpha_symbols)
        \<lparr>model = ReflectionModel docs_project, project_data = Some alpha_data,
         nodes = None, toc = Default\<rparr>
     = buildGroupTocContent (default_page (ReflectionModel docs_project) alpha_data alpha_symbols)"
    by (simp add: onBeginRendererPage_def default_page_def buildToc_of_def alpha_symbols_def)
  with alpha_index alpha_page_regrouped [of "ReflectionModel docs_project"] show ?thesis
    by (simp add: docs_project_def)
qed


section \<open>The names in the member lists\<close>

lemma project_data_after_regroup:
  "project_data page = Some d \<Longrightarrow>
     project_data (fst (buildGroupTocContent page)) = Some d
     \<or> (\<exists>d1. set_ungrouped d (nodes page) = Inr d1
            \<and> project_data (fst (buildGroupTocContent page)) = Some d1)"
  by (simp add: buildGroupTocContent_def split: prod.splits sum.splits)

lemma project_data_after_page:
  "project_data page = Some d \<Longrightarrow>
     project_data (fst (onBeginRendererPage buildToc page)) = Some d
     \<or> (\<exists>d1 toc_items. set_ungrouped d toc_items = Inr d1
            \<and> project_data (fst (onBeginRendererPage buildToc page)) = Some d1)"
proof (cases "model page")
  case OtherModel
  assume "project_data page = Some d"
  with OtherModel show ?thesis by (simp add: onBeginRendererPage_def)
next
  case (ReflectionModel m)
  assume d: "project_data page = Some d"
  show ?thesis
  proof (cases "walk_up m []")
    case (Inl e)
    with d ReflectionModel show ?thesis by (simp add: onBeginRendererPage_def)
  next
    case (Inr found)
    obtain m' trail where found: "found = (m', trail)" by (cases found)
    let ?q = "page\<lparr>nodes := buildToc m' trail, toc := Default\<rparr>"
    have "onBeginRendererPage buildToc page = buildGroupTocContent ?q"
      using ReflectionModel Inr found by (simp add: onBeginRendererPage_def)
    moreover have "project_data ?q = Some d" using d by simp
    ultimately show ?thesis
      using project_data_after_regroup [of ?q d] by auto
  qed
qed

text \<open>
  The list stored under \<^verbatim>\<open>Others\<close> holds names that are not in \<^verbatim>\<open>groupedData\<close>; once it
  is stored, the step stores nothing more.
\<close>

lemma set_ungrouped_others:
  assumes "set_ungrouped d1 toc_items = Inr d2"
    and "groupedData d1 = groupedData d"
    and "mapedTocData d1 = mapedTocData d
         \<or> (\<exists>ug. ug \<noteq> [] \<and> set ug \<inter> set (groupedData d) = {}
                \<and> mapedTocData d1 = mapedTocData d @ [(DEFAULT_UNGROUPED_NAME, ug)])"
  shows "groupedData d2 = groupedData d
         \<and> (mapedTocData d2 = mapedTocData d
            \<or> (\<exists>ug. ug \<noteq> [] \<and> set ug \<inter> set (groupedData d) = {}
                   \<and> mapedTocData d2 = mapedTocData d @ [(DEFAULT_UNGROUPED_NAME, ug)]))"
proof -
  from set_ungrouped_cases [OF assms(1)] show ?thesis
  proof
    assume "d2 = d1"
    with assms(2,3) show ?thesis by simp
  next
    assume "\<exists>items. toc_items = Some items
        \<and> map_of (mapedTocData d1) DEFAULT_UNGROUPED_NAME = None
        \<and> [n \<leftarrow> map title items. n \<notin> set (groupedData d1)] \<noteq> []
        \<and> d2 = d1\<lparr>mapedTocData := mapedTocData d1
                    @ [(DEFAULT_UNGROUPED_NAME, [n \<leftarrow> map title items. n \<notin> set (groupedData d1)])]\<rparr>"
    then obtain items where *: "toc_items = Some items
        \<and> map_of (mapedTocData d1) DEFAULT_UNGROUPED_NAME = None
        \<and> [n \<leftarrow> map title items. n \<notin> set (groupedData d1)] \<noteq> []
        \<and> d2 = d1\<lparr>mapedTocData := mapedTocData d1
                    @ [(DEFAULT_UNGROUPED_NAME, [n \<leftarrow> map title items. n \<notin> set (groupedData d1)])]\<rparr>" ..
    then have none: "map_of (mapedTocData d1) DEFAULT_UNGROUPED_NAME = None"
      and ne: "[n \<leftarrow> map title items. n \<notin> set (groupedData d1)] \<noteq> []"
      and d2: "d2 = d1\<lparr>mapedTocData := mapedTocData d1
                    @ [(DEFAULT_UNGROUPED_NAME, [n \<leftarrow> map title items. n \<notin> set (groupedData d1)])]\<rparr>"
      by simp_all
    from none assms(3) have same: "mapedTocData d1 = mapedTocData d"
      by (auto simp: map_of_append map_add_def split: option.splits)
    have "set [n \<leftarrow> map title items. n \<notin> set (groupedData d1)] \<inter> set (groupedData d) = {}"
      using assms(2) by auto
    with ne d2 same assms(2) show ?thesis by auto
  qed
qed

lemma render_pages_None: "render_pages buildToc pages None = None"
proof (induction pages)
  case Nil
  then show ?case by simp
next
  case (Cons page pages)
  have "project_data (fst (onBeginRendererPage buildToc (page\<lparr>project_data := None\<rparr>))) = None"
    by (simp add: onBeginRendererPage_def buildGroupTocContent_def
          split: page_model.splits sum.splits prod.splits)
  with Cons show ?case by simp
qed

lemma render_pages_others:
  assumes "groupedData d1 = groupedData d"
    and "mapedTocData d1 = mapedTocData d
         \<or> (\<exists>ug. ug \<noteq> [] \<and> set ug \<inter> set (groupedData d) = {}
                \<and> mapedTocData d1 = mapedTocData d @ [(DEFAULT_UNGROUPED_NAME, ug)])"
  shows "\<exists>d'. render_pages buildToc pages (Some d1) = Some d'
           \<and> groupedData d' = groupedData d
           \<and> (mapedTocData d' = mapedTocData d
              \<or> (\<exists>ug. ug \<noteq> [] \<and> set ug \<inter> set (groupedData d) = {}
                     \<and> mapedTocData d' = mapedTocData d @ [(DEFAULT_UNGROUPED_NAME, ug)]))"
  using assms
proof (induction pages arbitrary: d1)
  case Nil
  then show ?case by simp
next
  case (Cons page pages)
  let ?q = "page\<lparr>project_data := Some d1\<rparr>"
  have "project_data ?q = Some d1" by simp
  from project_data_after_page [OF this, of buildToc]
  obtain d2 where d2: "project_data (fst (onBeginRendererPage buildToc ?q)) = Some d2"
    and step: "d2 = d1 \<or> (\<exists>toc_items. set_ungrouped d1 toc_items = Inr d2)"
    by auto
  have "groupedData d2 = groupedData d
         \<and> (mapedTocData d2 = mapedTocData d
            \<or> (\<exists>ug. ug \<noteq> [] \<and> set ug \<inter> set (groupedData d) = {}
                   \<and> mapedTocData d2 = mapedTocData d @ [(DEFAULT_UNGROUPED_NAME, ug)]))"
    using step
  proof
    assume "d2 = d1"
    with Cons.prems show ?thesis by simp
  next
    assume "\<exists>toc_items. set_ungrouped d1 toc_items = Inr d2"
    then obtain toc_items where "set_ungrouped d1 toc_items = Inr d2" ..
    from set_ungrouped_others [OF this Cons.prems] show ?thesis .
  qed
  then have "\<exists>d'. render_pages buildToc pages (Some d2) = Some d'
           \<and> groupedData d' = groupedData d
           \<and> (mapedTocData d' = mapedTocData d
              \<or> (\<exists>ug. ug \<noteq> [] \<and> set ug \<inter> set (groupedData d) = {}
                     \<and> mapedTocData d' = mapedTocData d @ [(DEFAULT_UNGROUPED_NAME, ug)]))"
    by (intro Cons.IH) simp_all
  with d2 show ?case by simp
qed

text \<open>
  C4, as the code has it. When the Indexer has made the record, \<^verbatim>\<open>groupedData\<close> holds
  exactly the names of the member lists. Whatever pages are rendered afterwards,
  \<^verbatim>\<open>groupedData\<close> and the lists the Indexer made stay as they are, and at most one list is
  added behind them: the list \<^verbatim>\<open>Others\<close>, which is not empty and holds no name of
  \<^verbatim>\<open>groupedData\<close>.
\<close>

theorem grouped_names_and_member_lists:
  assumes "onBeginResolve this options project_name refs = Inr d"
  shows "set (groupedData d) = all_members (mapedTocData d)
     \<and> (\<exists>d'. render_pages buildToc pages (Some d) = Some d'
           \<and> groupedData d' = groupedData d
           \<and> (mapedTocData d' = mapedTocData d
              \<or> (\<exists>ug. ug \<noteq> [] \<and> set ug \<inter> set (groupedData d) = {}
                     \<and> mapedTocData d' = mapedTocData d @ [(DEFAULT_UNGROUPED_NAME, ug)])))"
  using onBeginResolve_lists [OF assms] render_pages_others [of d d buildToc pages]
  by simp

lemma scenario1_others:
  "render_pages (buildToc_of scenario1)
     [\<lparr>model = ReflectionModel docs_project, project_data = None, nodes = None, toc = Default\<rparr>]
     (Some scenario1_data)
   = Some (scenario1_data\<lparr>mapedTocData :=
             [(''Alpha'', [''Foo'', ''Bar'']), (''Others'', [''Baz''])]\<rparr>)"
proof -
  let ?page = "default_page (ReflectionModel docs_project) scenario1_data scenario1"
  let ?d1 = "scenario1_data\<lparr>mapedTocData := [(''Alpha'', [''Foo'', ''Bar'']), (''Others'', [''Baz''])]\<rparr>"
  have a: "project_data ?page = Some scenario1_data"
    by (simp add: default_page_def)
  have b: "set_ungrouped scenario1_data (nodes ?page) = Inr ?d1"
    by (simp add: set_ungrouped_def default_page_def scenario1_def item_of_def symbol_def
          new_NavigationItem_def scenario1_data_def get_prop_def object_prototype_def
          DEFAULT_UNGROUPED_NAME_def)
  have c: "project_data (fst (buildGroupTocContent ?page)) = Some ?d1"
    using two_groups_raise [OF a b] by (simp add: scenario1_data_def)
  have "walk_up docs_project [] = Inr (docs_project, [])"
    by (rule walk_up_top) (simp add: docs_project_def)
  then have "onBeginRendererPage (buildToc_of scenario1)
        \<lparr>model = ReflectionModel docs_project, project_data = Some scenario1_data,
         nodes = None, toc = Default\<rparr>
     = buildGroupTocContent ?page"
    by (simp add: onBeginRendererPage_def default_page_def buildToc_of_def scenario1_def)
  with c show ?thesis by simp
qed

theorem grouped_names_and_member_lists_witness:
  "set (groupedData scenario1_data) = all_members (mapedTocData scenario1_data)
   \<and> (\<exists>d'. render_pages (buildToc_of scenario1)
              [\<lparr>model = ReflectionModel docs_project, project_data = None, nodes = None,
                toc = Default\<rparr>] (Some scenario1_data) = Some d'
          \<and> groupedData d' = [''Foo'', ''Bar'']
          \<and> mapedTocData d' = mapedTocData scenario1_data @ [(''Others'', [''Baz''])])"
proof (rule conjI)
  show "set (groupedData scenario1_data) = all_members (mapedTocData scenario1_data)"
    using grouped_names_and_member_lists [OF scenario1_index, of "buildToc_of scenario1" "[]"]
    by (rule conjunct1)
next
  let ?d1 = "scenario1_data\<lparr>mapedTocData := [(''Alpha'', [''Foo'', ''Bar'']), (''Others'', [''Baz''])]\<rparr>"
  have "groupedData ?d1 = [''Foo'', ''Bar'']"
    and "mapedTocData ?d1 = mapedTocData scenario1_data @ [(''Others'', [''Baz''])]"
    by (simp_all add: scenario1_data_def)
  with scenario1_others
  show "\<exists>d'. render_pages (buildToc_of scenario1)
              [\<lparr>model = ReflectionModel docs_project, project_data = None, nodes = None,
                toc = Default\<rparr>] (Some scenario1_data) = Some d'
          \<and> groupedData d' = [''Foo'', ''Bar'']
          \<and> mapedTocData d' = mapedTocData scenario1_data @ [(''Others'', [''Baz''])]"
    by (intro exI [of _ ?d1] conjI)
qed

text \<open>
  The claim C4 itself, that \<^verbatim>\<open>groupedData\<close> is the union of the member lists also after
  the list \<^verbatim>\<open>Others\<close> has been stored, fails: in the first scenario the page of the
  project stores \<^verbatim>\<open>Others = [Baz]\<close>, and \<^verbatim>\<open>Baz\<close> is not in \<^verbatim>\<open>groupedData\<close>.
\<close>

theorem others_not_in_grouped_names:
  "onBeginResolve (onBegin default_options) default_options ''docs'' scenario1
     = Inr scenario1_data
   \<and> (\<exists>d'. render_pages (buildToc_of scenario1)
              [\<lparr>model = ReflectionModel docs_project, project_data = None, nodes = None,
                toc = Default\<rparr>] (Some scenario1_data) = Some d'
          \<and> ''Baz'' \<in> all_members (mapedTocData d')
          \<and> ''Baz'' \<notin> set (groupedData d')
          \<and> set (groupedData d') \<noteq> all_members (mapedTocData d'))"
proof (rule conjI)
  show "onBeginResolve (onBegin default_options) default_options ''docs'' scenario1
     = Inr scenario1_data"
    by (rule scenario1_index)
next
  let ?d1 = "scenario1_data\<lparr>mapedTocData := [(''Alpha'', [''Foo'', ''Bar'']), (''Others'', [''Baz''])]\<rparr>"
  have a: "''Baz'' \<in> all_members (mapedTocData ?d1)"
    by (simp add: all_members_def)
  have b: "''Baz'' \<notin> set (groupedData ?d1)"
    by (simp add: scenario1_data_def)
  from a b have c: "set (groupedData ?d1) \<noteq> all_members (mapedTocData ?d1)"
    by blast
  from scenario1_others a b c
  show "\<exists>d'. render_pages (buildToc_of scenario1)
              [\<lparr>model = ReflectionModel docs_project, project_data = None, nodes = None,
                toc = Default\<rparr>] (Some scenario1_data) = Some d'
          \<and> ''Baz'' \<in> all_members (mapedTocData d')
          \<and> ''Baz'' \<notin> set (groupedData d')
          \<and> set (groupedData d') \<noteq> all_members (mapedTocData d')"
    by (intro exI [of _ ?d1] conjI)
qed


section \<open>The construction of the group roots\<close>

lemma filter_item_frame:
  "filter_item d key gv item = Inr (keep, item') \<Longrightarrow>
     title item' = title item \<and> reflection item' = reflection item"
  by (auto simp: filter_item_def Let_def split: option.splits if_splits js_get.splits)

lemma filter_item_keep:
  "filter_item d key gv item = Inr (keep, item') \<Longrightarrow> keep = passes_filter d gv item"
  by (auto simp: filter_item_def passes_filter_def Let_def
        split: option.splits if_splits js_get.splits)

lemma filter_item_excluded:
  "reflection item = Some r \<Longrightarrow> regexp_test (regexp d) (kind_probe r) \<Longrightarrow>
     filter_item d key gv item = Inr (False, item)"
  by (simp add: filter_item_def)

lemma filter_item_flag:
  "filter_item d key gv item = Inr (keep, item') \<Longrightarrow> reflection item = Some r \<Longrightarrow>
     \<not> regexp_test (regexp d) (kind_probe r) \<Longrightarrow> title item \<in> deprecatedData d \<Longrightarrow>
     deprecated item'"
  by (auto simp: filter_item_def Let_def split: option.splits if_splits js_get.splits)

lemma filter_item_flag_kept:
  "filter_item d key gv item = Inr (keep, item') \<Longrightarrow> deprecated item \<Longrightarrow> deprecated item'"
  by (auto simp: filter_item_def Let_def split: option.splits if_splits js_get.splits)

lemma filter_item_returns:
  "reflection item \<noteq> None \<Longrightarrow> \<exists>keep item'. filter_item d key (Own members) item = Inr (keep, item')"
  by (auto simp: filter_item_def Let_def)

lemma filter_children_frame:
  "filter_children d key gv i items = (items', r) \<Longrightarrow>
     length items' = length items \<and> map title items' = map title items
     \<and> map reflection items' = map reflection items"
proof (induction items arbitrary: i items' r)
  case Nil
  then show ?case by simp
next
  case (Cons item rest)
  show ?case
  proof (cases "filter_item d key gv item")
    case (Inl e)
    with Cons.prems show ?thesis by simp
  next
    case (Inr res)
    obtain keep item' where res: "res = (keep, item')" by (cases res)
    obtain rest' r' where rec: "filter_children d key gv (Suc i) rest = (rest', r')"
      by (cases "filter_children d key gv (Suc i) rest")
    from Cons.prems Inr res rec have "items' = item' # rest'"
      by (auto split: sum.splits)
    with Cons.IH [OF rec] filter_item_frame [of d key gv item keep item'] Inr res
    show ?thesis by simp
  qed
qed

lemma filter_children_kept:
  "filter_children d key gv i items = (items', Inr kept) \<Longrightarrow>
     j \<in> set kept \<longleftrightarrow> i \<le> j \<and> j < i + length items \<and> passes_filter d gv (items ! (j - i))"
proof (induction items arbitrary: i items' kept)
  case Nil
  then show ?case by simp
next
  case (Cons item rest)
  from Cons.prems obtain keep item' where item: "filter_item d key gv item = Inr (keep, item')"
    by (cases "filter_item d key gv item") auto
  obtain rest' r' where rec: "filter_children d key gv (Suc i) rest = (rest', r')"
    by (cases "filter_children d key gv (Suc i) rest")
  from Cons.prems item rec obtain kept' where r': "r' = Inr kept'"
    and kept: "kept = (if keep then i # kept' else kept')"
    by (cases r') auto
  have IH: "j \<in> set kept' \<longleftrightarrow> Suc i \<le> j \<and> j < Suc i + length rest
              \<and> passes_filter d gv (rest ! (j - Suc i))"
    using Cons.IH [of "Suc i" rest' kept'] rec r' by simp
  have keep: "keep = passes_filter d gv item"
    by (rule filter_item_keep [OF item])
  show ?case
  proof (cases "j = i")
    case True
    with IH kept keep show ?thesis by simp
  next
    case False
    then have "(item # rest) ! (j - i) = rest ! (j - Suc i)" if "i \<le> j"
      using that by (simp add: nth_Cons')
    with False IH kept show ?thesis by auto
  qed
qed

lemma filter_children_excluded:
  "filter_children d key gv i items = (items', r) \<Longrightarrow> j < length items \<Longrightarrow>
     reflection (items ! j) = Some rr \<Longrightarrow> regexp_test (regexp d) (kind_probe rr) \<Longrightarrow>
     items' ! j = items ! j"
proof (induction items arbitrary: i items' r j)
  case Nil
  then show ?case by simp
next
  case (Cons item rest)
  show ?case
  proof (cases "filter_item d key gv item")
    case (Inl e)
    with Cons.prems show ?thesis by simp
  next
    case (Inr res)
    obtain keep item' where res: "res = (keep, item')" by (cases res)
    obtain rest' r' where rec: "filter_children d key gv (Suc i) rest = (rest', r')"
      by (cases "filter_children d key gv (Suc i) rest")
    from Cons.prems(1) Inr res rec have items': "items' = item' # rest'"
      by (auto split: sum.splits)
    show ?thesis
    proof (cases j)
      case 0
      with Cons.prems filter_item_excluded [of item rr d key gv] Inr res items'
      show ?thesis by simp
    next
      case (Suc j')
      with Cons.prems Cons.IH [OF rec, of j'] items' show ?thesis by simp
    qed
  qed
qed

lemma filter_children_flag:
  "filter_children d key gv i items = (items', Inr kept) \<Longrightarrow> j < length items \<Longrightarrow>
     reflection (items ! j) = Some rr \<Longrightarrow> \<not> regexp_test (regexp d) (kind_probe rr) \<Longrightarrow>
     title (items ! j) \<in> deprecatedData d \<Longrightarrow> deprecated (items' ! j)"
proof (induction items arbitrary: i items' kept j)
  case Nil
  then show ?case by simp
next
  case (Cons item rest)
  from Cons.prems(1) obtain keep item' where item: "filter_item d key gv item = Inr (keep, item')"
    by (cases "filter_item d key gv item") auto
  obtain rest' r' where rec: "filter_children d key gv (Suc i) rest = (rest', r')"
    by (cases "filter_children d key gv (Suc i) rest")
  from Cons.prems(1) item rec obtain kept' where r': "r' = Inr kept'"
    and items': "items' = item' # rest'"
    by (cases r') auto
  show ?case
  proof (cases j)
    case 0
    with Cons.prems filter_item_flag [OF item, of rr] items' show ?thesis by simp
  next
    case (Suc j')
    with Cons.prems Cons.IH [of "Suc i" rest' kept' j'] rec r' items' show ?thesis by simp
  qed
qed

lemma filter_children_flag_kept:
  "filter_children d key gv i items = (items', r) \<Longrightarrow> j < length items \<Longrightarrow>
     deprecated (items ! j) \<Longrightarrow> deprecated (items' ! j)"
proof (induction items arbitrary: i items' r j)
  case Nil
  then show ?case by simp
next
  case (Cons item rest)
  show ?case
  proof (cases "filter_item d key gv item")
    case (Inl e)
    with Cons.prems show ?thesis by simp
  next
    case (Inr res)
    obtain keep item' where res: "res = (keep, item')" by (cases res)
    obtain rest' r' where rec: "filter_children d key gv (Suc i) rest = (rest', r')"
      by (cases "filter_children d key gv (Suc i) rest")
    from Cons.prems(1) Inr res rec have items': "items' = item' # rest'"
      by (auto split: sum.splits)
    show ?thesis
    proof (cases j)
      case 0
      with Cons.prems filter_item_flag_kept [of d key gv item keep item'] Inr res items'
      show ?thesis by simp
    next
      case (Suc j')
      with Cons.prems Cons.IH [OF rec, of j'] items' show ?thesis by simp
    qed
  qed
qed

lemma filter_children_returns:
  "list_all (\<lambda>item. reflection item \<noteq> None) items \<Longrightarrow>
     \<exists>items' kept. filter_children d key (Own members) i items = (items', Inr kept)"
proof (induction items arbitrary: i)
  case Nil
  then show ?case by simp
next
  case (Cons item rest)
  then obtain keep item' where "filter_item d key (Own members) item = Inr (keep, item')"
    using filter_item_returns [of item d key members] by auto
  moreover from Cons obtain rest' kept'
    where "filter_children d key (Own members) (Suc i) rest = (rest', Inr kept')"
    by fastforce
  ultimately show ?case by simp
qed


lemma passes_filter_cong:
  "title a = title b \<Longrightarrow> reflection a = reflection b \<Longrightarrow>
     passes_filter d gv a = passes_filter d gv b"
  by (simp add: passes_filter_def split: option.splits js_get.splits)

lemma same_fields_nth:
  assumes "map title items' = map title items" and "map reflection items' = map reflection items"
    and "j < length items"
  shows "title (items' ! j) = title (items ! j) \<and> reflection (items' ! j) = reflection (items ! j)"
proof -
  from assms(1) have len: "length items' = length items" by (metis length_map)
  with assms(3) have "map title items' ! j = title (items' ! j)"
    and "map reflection items' ! j = reflection (items' ! j)"
    and "map title items ! j = title (items ! j)"
    and "map reflection items ! j = reflection (items ! j)"
    by simp_all
  with assms(1,2) show ?thesis by simp
qed

lemma build_roots_frame:
  "build_roots d keys (Some items) = (toc_items', r) \<Longrightarrow>
     \<exists>items'. toc_items' = Some items' \<and> length items' = length items
       \<and> map title items' = map title items \<and> map reflection items' = map reflection items"
proof (induction keys arbitrary: items toc_items' r)
  case Nil
  then show ?case by auto
next
  case (Cons key keys)
  obtain items1 r1 where f: "filter_children d key (get_prop (mapedTocData d) key) 0 items = (items1, r1)"
    by (cases "filter_children d key (get_prop (mapedTocData d) key) 0 items")
  note fr = filter_children_frame [OF f]
  show ?case
  proof (cases r1)
    case (Inl e)
    with Cons.prems f fr show ?thesis by auto
  next
    case (Inr kept)
    obtain ns2 r2 where b: "build_roots d keys (Some items1) = (ns2, r2)"
      by (cases "build_roots d keys (Some items1)")
    from Cons.prems f Inr b have "toc_items' = ns2"
      by (auto split: sum.splits)
    with Cons.IH [OF b] fr show ?thesis by auto
  qed
qed

text \<open>
  Each key gets its root, in the order of the keys, and the children of the root are
  the positions of the items that pass the filter for the list of that key.
\<close>

lemma build_roots_kept:
  "build_roots d keys (Some items) = (toc_items', Inr roots) \<Longrightarrow>
     list_all2 (\<lambda>key g. \<exists>kept. g = group_root d key kept
                  \<and> (\<forall>j. j \<in> set kept \<longleftrightarrow>
                        j < length items
                        \<and> passes_filter d (get_prop (mapedTocData d) key) (items ! j)))
       keys roots"
proof (induction keys arbitrary: items toc_items' roots)
  case Nil
  then show ?case by simp
next
  case (Cons key keys)
  obtain items1 r1 where f: "filter_children d key (get_prop (mapedTocData d) key) 0 items = (items1, r1)"
    by (cases "filter_children d key (get_prop (mapedTocData d) key) 0 items")
  note fr = filter_children_frame [OF f]
  from Cons.prems f obtain kept where r1: "r1 = Inr kept"
    by (cases r1) auto
  obtain ns2 r2 where b: "build_roots d keys (Some items1) = (ns2, r2)"
    by (cases "build_roots d keys (Some items1)")
  from Cons.prems f r1 b obtain roots' where r2: "r2 = Inr roots'"
    and roots: "roots = group_root d key kept # roots'"
    by (cases r2) auto
  have first: "\<forall>j. j \<in> set kept \<longleftrightarrow>
          j < length items \<and> passes_filter d (get_prop (mapedTocData d) key) (items ! j)"
    using filter_children_kept [OF f [unfolded r1]] by simp
  have same: "passes_filter d gv (items1 ! j) = passes_filter d gv (items ! j)"
    if "j < length items" for j gv
    using same_fields_nth [of items1 items j] fr that by (intro passes_filter_cong) simp_all
  have "list_all2 (\<lambda>key g. \<exists>kept. g = group_root d key kept
                  \<and> (\<forall>j. j \<in> set kept \<longleftrightarrow>
                        j < length items1
                        \<and> passes_filter d (get_prop (mapedTocData d) key) (items1 ! j)))
       keys roots'"
    using Cons.IH [of items1 ns2 roots'] b r2 by simp
  then have "list_all2 (\<lambda>key g. \<exists>kept. g = group_root d key kept
                  \<and> (\<forall>j. j \<in> set kept \<longleftrightarrow>
                        j < length items
                        \<and> passes_filter d (get_prop (mapedTocData d) key) (items ! j)))
       keys roots'"
    by (rule list_all2_mono) (use fr same in auto)
  with first roots show ?case by auto
qed

lemma build_roots_excluded:
  "build_roots d keys (Some items) = (Some items', r) \<Longrightarrow> j < length items \<Longrightarrow>
     reflection (items ! j) = Some rr \<Longrightarrow> regexp_test (regexp d) (kind_probe rr) \<Longrightarrow>
     items' ! j = items ! j"
proof (induction keys arbitrary: items items' r)
  case Nil
  then show ?case by simp
next
  case (Cons key keys)
  obtain items1 r1 where f: "filter_children d key (get_prop (mapedTocData d) key) 0 items = (items1, r1)"
    by (cases "filter_children d key (get_prop (mapedTocData d) key) 0 items")
  note fr = filter_children_frame [OF f]
  have one: "items1 ! j = items ! j"
    using filter_children_excluded [OF f Cons.prems(2,3,4)] .
  show ?case
  proof (cases r1)
    case (Inl e)
    with Cons.prems f one show ?thesis by simp
  next
    case (Inr kept)
    obtain ns2 r2 where b: "build_roots d keys (Some items1) = (ns2, r2)"
      by (cases "build_roots d keys (Some items1)")
    from Cons.prems(1) f Inr b have ns2: "ns2 = Some items'"
      by (auto split: sum.splits)
    have "items' ! j = items1 ! j"
      using Cons.IH [of items1 items' r2] b ns2 Cons.prems(2,3,4) fr one by simp
    with one show ?thesis by simp
  qed
qed

lemma build_roots_flag_kept:
  "build_roots d keys (Some items) = (Some items', r) \<Longrightarrow> j < length items \<Longrightarrow>
     deprecated (items ! j) \<Longrightarrow> deprecated (items' ! j)"
proof (induction keys arbitrary: items items' r)
  case Nil
  then show ?case by simp
next
  case (Cons key keys)
  obtain items1 r1 where f: "filter_children d key (get_prop (mapedTocData d) key) 0 items = (items1, r1)"
    by (cases "filter_children d key (get_prop (mapedTocData d) key) 0 items")
  note fr = filter_children_frame [OF f]
  have one: "deprecated (items1 ! j)"
    using filter_children_flag_kept [OF f Cons.prems(2,3)] .
  show ?case
  proof (cases r1)
    case (Inl e)
    with Cons.prems f one show ?thesis by simp
  next
    case (Inr kept)
    obtain ns2 r2 where b: "build_roots d keys (Some items1) = (ns2, r2)"
      by (cases "build_roots d keys (Some items1)")
    from Cons.prems(1) f Inr b have ns2: "ns2 = Some items'"
      by (auto split: sum.splits)
    show ?thesis
      using Cons.IH [of items1 items' r2] b ns2 Cons.prems(2) fr one by simp
  qed
qed

text \<open>Every group flags the deprecated items that its kind probe lets through.\<close>

lemma build_roots_flag:
  assumes "build_roots d keys (Some items) = (Some items', Inr roots)" and "keys \<noteq> []"
    and "j < length items" and "reflection (items ! j) = Some rr"
    and "\<not> regexp_test (regexp d) (kind_probe rr)" and "title (items ! j) \<in> deprecatedData d"
  shows "deprecated (items' ! j)"
proof -
  from assms(2) obtain key keys' where keys: "keys = key # keys'" by (cases keys) auto
  obtain items1 r1 where f: "filter_children d key (get_prop (mapedTocData d) key) 0 items = (items1, r1)"
    by (cases "filter_children d key (get_prop (mapedTocData d) key) 0 items")
  note fr = filter_children_frame [OF f]
  from assms(1) keys f obtain kept where r1: "r1 = Inr kept"
    by (cases r1) auto
  obtain ns2 r2 where b: "build_roots d keys' (Some items1) = (ns2, r2)"
    by (cases "build_roots d keys' (Some items1)")
  from assms(1) keys f r1 b have ns2: "ns2 = Some items'"
    by (auto split: sum.splits)
  have "deprecated (items1 ! j)"
    using filter_children_flag [OF f [unfolded r1] assms(3,4,5,6)] .
  then show ?thesis
    using build_roots_flag_kept [of d keys' items1 items' r2 j] b ns2 assms(3) fr by simp
qed

lemma build_roots_returns:
  assumes "list_all (\<lambda>item. reflection item \<noteq> None) items"
    and "\<forall>key \<in> set keys. \<exists>members. get_prop (mapedTocData d) key = Own members"
  shows "\<exists>items' roots. build_roots d keys (Some items) = (Some items', Inr roots)"
  using assms
proof (induction keys arbitrary: items)
  case Nil
  then show ?case by simp
next
  case (Cons key keys)
  then obtain members where m: "get_prop (mapedTocData d) key = Own members" by auto
  from filter_children_returns [OF Cons.prems(1), of d key members 0]
  obtain items1 kept where f: "filter_children d key (Own members) 0 items = (items1, Inr kept)"
    by blast
  have "list_all (\<lambda>r. r \<noteq> None) (map reflection items)"
    using Cons.prems(1) by (simp add: list_all_iff)
  then have "list_all (\<lambda>r. r \<noteq> None) (map reflection items1)"
    using filter_children_frame [OF f] by simp
  then have "list_all (\<lambda>item. reflection item \<noteq> None) items1"
    by (simp add: list_all_iff)
  with Cons.IH [of items1] Cons.prems(2)
  obtain items' roots where "build_roots d keys (Some items1) = (Some items', Inr roots)"
    by auto
  with m f show ?case by simp
qed

lemma Object_keys_own:
  "key \<in> set (Object_keys obj) \<Longrightarrow> \<exists>v. get_prop obj key = Own v"
proof -
  assume "key \<in> set (Object_keys obj)"
  then have "key \<in> fst ` set obj" by (simp add: set_Object_keys)
  then obtain v where "map_of obj key = Some v"
    by (metis domD dom_map_of_conv_image_fst)
  then show ?thesis by (auto simp: get_prop_Own)
qed

text \<open>
  When the function returns without an exception and there is a key, the child list
  has been replaced by the roots as they were built.
\<close>

lemma regroup_returns:
  assumes "project_data page = Some d" and "mapedTocData d \<noteq> []"
    and "snd (buildGroupTocContent page) = None"
  shows "\<exists>d1 toc_items' roots. set_ungrouped d (nodes page) = Inr d1
     \<and> build_roots d1 (Object_keys (mapedTocData d1)) (nodes page) = (toc_items', Inr roots)
     \<and> fst (buildGroupTocContent page)
         = page\<lparr>project_data := Some d1, nodes := toc_items', toc := Regrouped roots\<rparr>"
proof -
  have keys: "Object_keys (mapedTocData d) \<noteq> []"
    using assms(2) by (simp add: Object_keys_empty)
  from assms keys obtain d1 where d1: "set_ungrouped d (nodes page) = Inr d1"
    by (cases "set_ungrouped d (nodes page)") (auto simp: buildGroupTocContent_def)
  have keys1: "Object_keys (mapedTocData d1) \<noteq> []"
    using set_ungrouped_keys [OF d1 assms(2)] by (simp add: Object_keys_empty)
  obtain toc_items' r where b: "build_roots d1 (Object_keys (mapedTocData d1)) (nodes page) = (toc_items', r)"
    by (cases "build_roots d1 (Object_keys (mapedTocData d1)) (nodes page)")
  from assms keys d1 b obtain roots where r: "r = Inr roots"
    by (cases r) (auto simp: buildGroupTocContent_def)
  from build_roots_no_reflection [OF b [unfolded r]] keys1
  have nr: "list_all (\<lambda>g. reflection g = None) roots" and ne: "roots \<noteq> []"
    by auto
  from assms keys d1 b r nr have "length roots \<le> 1"
    by (auto simp: buildGroupTocContent_def js_sort_no_reflection split: if_splits)
  with nr have "js_sort (sort_compare (sortOrder d1)) roots = Inr roots"
    by (simp add: js_sort_no_reflection)
  with assms(1) keys d1 b r ne
  have "fst (buildGroupTocContent page)
         = page\<lparr>project_data := Some d1, nodes := toc_items', toc := Regrouped roots\<rparr>"
    by (simp add: buildGroupTocContent_def)
  with d1 b r show ?thesis by blast
qed

lemma list_all2_in_left: "list_all2 P xs ys \<Longrightarrow> x \<in> set xs \<Longrightarrow> \<exists>y \<in> set ys. P x y"
  by (induction rule: list_all2_induct) auto

lemma list_all2_in_right: "list_all2 P xs ys \<Longrightarrow> y \<in> set ys \<Longrightarrow> \<exists>x \<in> set xs. P x y"
  by (induction rule: list_all2_induct) auto

lemma build_roots_of_key:
  assumes "build_roots d keys (Some items) = (toc_items', Inr roots)" and "key \<in> set keys"
  shows "\<exists>kept. group_root d key kept \<in> set roots
           \<and> (\<forall>j. j \<in> set kept \<longleftrightarrow>
                 j < length items
                 \<and> passes_filter d (get_prop (mapedTocData d) key) (items ! j))"
  using list_all2_in_left [OF build_roots_kept [OF assms(1)] assms(2)] by blast

lemma build_roots_of_root:
  assumes "build_roots d keys (Some items) = (toc_items', Inr roots)" and "g \<in> set roots"
  shows "\<exists>key kept. key \<in> set keys \<and> g = group_root d key kept
           \<and> (\<forall>j. j \<in> set kept \<longleftrightarrow>
                 j < length items
                 \<and> passes_filter d (get_prop (mapedTocData d) key) (items ! j))"
  using list_all2_in_right [OF build_roots_kept [OF assms(1)] assms(2)] by blast

text \<open>
  The outcome of \<^verbatim>\<open>buildGroupTocContent\<close> when there is a key and the roots have been built:
  with one root the sort calls no comparison and the child list is replaced; with two
  roots or more the first comparison raises and the child list stays. What the filter
  has written to the items stays written in both cases.
\<close>

lemma regroup_outcome:
  assumes "project_data page = Some d" and "mapedTocData d \<noteq> []"
    and "set_ungrouped d (nodes page) = Inr d1"
    and "build_roots d1 (Object_keys (mapedTocData d1)) (nodes page) = (toc_items', Inr roots)"
  shows "buildGroupTocContent page =
     (if length roots \<le> 1
      then (page\<lparr>project_data := Some d1, nodes := toc_items', toc := Regrouped roots\<rparr>, None)
      else (page\<lparr>project_data := Some d1, nodes := toc_items'\<rparr>, Some TypeError))"
proof -
  have keys: "Object_keys (mapedTocData d) \<noteq> []"
    using assms(2) by (simp add: Object_keys_empty)
  have keys1: "Object_keys (mapedTocData d1) \<noteq> []"
    using set_ungrouped_keys [OF assms(3,2)] by (simp add: Object_keys_empty)
  from build_roots_no_reflection [OF assms(4)] keys1
  have nr: "list_all (\<lambda>g. reflection g = None) roots" and ne: "roots \<noteq> []"
    by auto
  show ?thesis
    using assms(1,3,4) keys ne
    by (simp add: buildGroupTocContent_def js_sort_no_reflection [OF nr]
          del: build_roots.simps js_sort.simps)
qed

text \<open>
  The parent of an item after the filters: the root of the last key (in the order of
  the keys) whose filter has kept the item, or the parent it had.
\<close>

lemma filter_item_parent:
  "filter_item d key gv item = Inr (keep, item') \<Longrightarrow>
     nav_parent item'
       = (if passes_filter d gv item then Some (GroupRoot key) else nav_parent item)"
  by (auto simp: filter_item_def passes_filter_def Let_def
        split: option.splits if_splits js_get.splits)

lemma filter_children_parent:
  "filter_children d key gv i items = (items', Inr kept) \<Longrightarrow> j < length items \<Longrightarrow>
     nav_parent (items' ! j)
       = (if passes_filter d gv (items ! j) then Some (GroupRoot key)
          else nav_parent (items ! j))"
proof (induction items arbitrary: i items' kept j)
  case Nil
  then show ?case by simp
next
  case (Cons item rest)
  from Cons.prems(1) obtain keep item' where item: "filter_item d key gv item = Inr (keep, item')"
    by (cases "filter_item d key gv item") auto
  obtain rest' r' where rec: "filter_children d key gv (Suc i) rest = (rest', r')"
    by (cases "filter_children d key gv (Suc i) rest")
  from Cons.prems(1) item rec obtain kept' where r': "r' = Inr kept'"
    and items': "items' = item' # rest'"
    by (cases r') auto
  show ?case
  proof (cases j)
    case 0
    with filter_item_parent [OF item] items' show ?thesis by simp
  next
    case (Suc j')
    with Cons.prems Cons.IH [of "Suc i" rest' kept' j'] rec r' items' show ?thesis by simp
  qed
qed

lemma build_roots_parent:
  "build_roots d keys (Some items) = (Some items', Inr roots) \<Longrightarrow> j < length items \<Longrightarrow>
     nav_parent (items' ! j) =
       (case filter (\<lambda>key. passes_filter d (get_prop (mapedTocData d) key) (items ! j)) keys of
          [] \<Rightarrow> nav_parent (items ! j)
        | k # ks \<Rightarrow> Some (GroupRoot (last (k # ks))))"
proof (induction keys arbitrary: items items' roots)
  case Nil
  then show ?case by simp
next
  case (Cons key keys)
  obtain items1 r1 where f: "filter_children d key (get_prop (mapedTocData d) key) 0 items = (items1, r1)"
    by (cases "filter_children d key (get_prop (mapedTocData d) key) 0 items")
  note fr = filter_children_frame [OF f]
  from Cons.prems(1) f obtain kept where r1: "r1 = Inr kept"
    by (cases r1) auto
  obtain ns2 r2 where b: "build_roots d keys (Some items1) = (ns2, r2)"
    by (cases "build_roots d keys (Some items1)")
  from Cons.prems(1) f r1 b obtain roots' where r2: "r2 = Inr roots'" and ns2: "ns2 = Some items'"
    by (cases r2) auto
  have same: "passes_filter d gv (items1 ! j) = passes_filter d gv (items ! j)" for gv
    using same_fields_nth [of items1 items j] fr Cons.prems(2)
    by (intro passes_filter_cong) simp_all
  have one: "nav_parent (items1 ! j)
       = (if passes_filter d (get_prop (mapedTocData d) key) (items ! j)
          then Some (GroupRoot key) else nav_parent (items ! j))"
    using filter_children_parent [OF f [unfolded r1] Cons.prems(2)] .
  have "nav_parent (items' ! j) =
       (case filter (\<lambda>key. passes_filter d (get_prop (mapedTocData d) key) (items1 ! j)) keys of
          [] \<Rightarrow> nav_parent (items1 ! j)
        | k # ks \<Rightarrow> Some (GroupRoot (last (k # ks))))"
    using Cons.IH [of items1 items' roots'] b r2 ns2 Cons.prems(2) fr by simp
  with one show ?case
    by (simp add: same split: list.splits)
qed

lemma build_roots_parent_member:
  assumes "build_roots d keys (Some items) = (Some items', Inr roots)" and "j < length items"
    and "key \<in> set keys" and "passes_filter d (get_prop (mapedTocData d) key) (items ! j)"
  shows "\<exists>k \<in> set keys. nav_parent (items' ! j) = Some (GroupRoot k)
           \<and> passes_filter d (get_prop (mapedTocData d) k) (items ! j)"
proof -
  let ?ks = "filter (\<lambda>key. passes_filter d (get_prop (mapedTocData d) key) (items ! j)) keys"
  from assms(3,4) have ne: "?ks \<noteq> []"
    by (auto simp: filter_empty_conv)
  then have "last ?ks \<in> set ?ks" by (rule last_in_set)
  moreover from ne build_roots_parent [OF assms(1,2)]
  have "nav_parent (items' ! j) = Some (GroupRoot (last ?ks))"
    by (simp split: list.splits)
  ultimately show ?thesis by auto
qed

text \<open>
  Where the roots have been built, an item that the kind probe lets through has met, for
  every key, a list of names: a key without one makes the callback raise.
\<close>

lemma filter_item_own:
  "filter_item d key gv item = Inr (keep, item') \<Longrightarrow> reflection item = Some r \<Longrightarrow>
     \<not> regexp_test (regexp d) (kind_probe r) \<Longrightarrow> \<exists>members. gv = Own members"
  by (auto simp: filter_item_def Let_def split: option.splits if_splits js_get.splits)

lemma filter_children_own:
  "filter_children d key gv i items = (items', Inr kept) \<Longrightarrow> j < length items \<Longrightarrow>
     reflection (items ! j) = Some r \<Longrightarrow> \<not> regexp_test (regexp d) (kind_probe r) \<Longrightarrow>
     \<exists>members. gv = Own members"
proof (induction items arbitrary: i items' kept j)
  case Nil
  then show ?case by simp
next
  case (Cons item rest)
  from Cons.prems(1) obtain keep item' where item: "filter_item d key gv item = Inr (keep, item')"
    by (cases "filter_item d key gv item") auto
  obtain rest' r' where rec: "filter_children d key gv (Suc i) rest = (rest', r')"
    by (cases "filter_children d key gv (Suc i) rest")
  from Cons.prems(1) item rec obtain kept' where r': "r' = Inr kept'"
    by (cases r') auto
  show ?case
  proof (cases j)
    case 0
    with Cons.prems filter_item_own [OF item, of r] show ?thesis by simp
  next
    case (Suc j')
    with Cons.prems Cons.IH [of "Suc i" rest' kept' j'] rec r' show ?thesis by simp
  qed
qed

lemma build_roots_own:
  "build_roots d keys (Some items) = (toc_items', Inr roots) \<Longrightarrow> j < length items \<Longrightarrow>
     reflection (items ! j) = Some r \<Longrightarrow> \<not> regexp_test (regexp d) (kind_probe r) \<Longrightarrow>
     key \<in> set keys \<Longrightarrow> \<exists>members. get_prop (mapedTocData d) key = Own members"
proof (induction keys arbitrary: items toc_items' roots)
  case Nil
  then show ?case by simp
next
  case (Cons k keys)
  obtain items1 r1 where f: "filter_children d k (get_prop (mapedTocData d) k) 0 items = (items1, r1)"
    by (cases "filter_children d k (get_prop (mapedTocData d) k) 0 items")
  note fr = filter_children_frame [OF f]
  from Cons.prems(1) f obtain kept where r1: "r1 = Inr kept"
    by (cases r1) auto
  obtain ns2 r2 where b: "build_roots d keys (Some items1) = (ns2, r2)"
    by (cases "build_roots d keys (Some items1)")
  from Cons.prems(1) f r1 b obtain roots' where r2: "r2 = Inr roots'"
    by (cases r2) auto
  show ?case
  proof (cases "key = k")
    case True
    with filter_children_own [OF f [unfolded r1] Cons.prems(2,3,4)] show ?thesis by simp
  next
    case False
    with Cons.prems(5) have key: "key \<in> set keys" by simp
    have "reflection (items1 ! j) = Some r"
      using same_fields_nth [of items1 items j] fr Cons.prems(2,3) by simp
    with Cons.IH [of items1 ns2 roots'] b r2 Cons.prems(2,4) fr key show ?thesis by simp
  qed
qed

lemma show_nat_128: "show_nat 128 = ''128''"
  by code_simp


section \<open>A symbol with a grouping tag, from the Indexer to the group\<close>

text \<open>
  What the record holds for a symbol whose first grouping tag is \<open>grp\<close>, when the
  Indexer has returned.
\<close>

lemma scan_reflections_member:
  assumes "scan_reflections refs d0 = Inr d" and "r \<in> set refs"
    and "comment r = Some c" and "tags c = Some (pre @ grp # post)"
    and "list_all (\<lambda>t. \<not> is_grouping_tag (regexp d0) t) pre"
    and "is_grouping_tag (regexp d0) grp"
  shows "(\<exists>members. map_of (mapedTocData d) (groupKey_of grp) = Some members
            \<and> name r \<in> set members)
         \<and> (list_ex is_deprecated_tag (pre @ [grp]) \<longrightarrow> name r \<in> deprecatedData d)"
  using assms
proof (induction refs arbitrary: d0)
  case Nil
  then show ?case by simp
next
  case (Cons x refs)
  show ?case
  proof (cases "x = r")
    case True
    let ?key = "groupKey_of grp"
    from Cons.prems(1,3,4) True obtain d1 where d1: "scan_tags (name r) (pre @ grp # post) d0 = Inr d1"
      and rest: "scan_reflections refs d1 = Inr d"
      by (auto split: sum.splits)
    note first = scan_tags_first_group [OF Cons.prems(5,6), of "name r" post]
    have "(\<exists>members. map_of (mapedTocData d1) ?key = Some members \<and> name r \<in> set members)
         \<and> (list_ex is_deprecated_tag (pre @ [grp]) \<longrightarrow> name r \<in> deprecatedData d1)"
    proof (cases "get_prop (mapedTocData d0) ?key")
      case (Own l)
      with first d1 show ?thesis
        by (auto simp: Let_def map_of_set_prop)
    next
      case Inherited
      with first d1 show ?thesis by (simp add: Let_def)
    next
      case Undefined
      with first d1 show ?thesis
        by (auto simp: Let_def map_of_set_prop)
    qed
    with scan_reflections_mono [OF rest] show ?thesis
      by (fastforce dest: subsetD)
  next
    case False
    with Cons.prems(2) have r: "r \<in> set refs" by simp
    show ?thesis
    proof (cases "\<exists>c ts. comment x = Some c \<and> tags c = Some ts")
      case False
      with Cons.prems(1) have "scan_reflections refs d0 = Inr d"
        by (auto split: option.splits)
      from Cons.IH [OF this r Cons.prems(3,4,5,6)] show ?thesis .
    next
      case True
      then obtain cx ts where cx: "comment x = Some cx" "tags cx = Some ts" by blast
      with Cons.prems(1) obtain d1 where d1: "scan_tags (name x) ts d0 = Inr d1"
        and rest: "scan_reflections refs d1 = Inr d"
        by (auto split: sum.splits)
      from scan_tags_frame [OF d1] have "regexp d1 = regexp d0" by simp
      with Cons.prems(5,6) have "list_all (\<lambda>t. \<not> is_grouping_tag (regexp d1) t) pre"
        and "is_grouping_tag (regexp d1) grp"
        by simp_all
      from Cons.IH [OF rest r Cons.prems(3,4) this] show ?thesis .
    qed
  qed
qed

lemma onBeginResolve_member:
  assumes "onBeginResolve this options project_name refs = Inr d" and "r \<in> set refs"
    and "comment r = Some c" and "tags c = Some (pre @ grp # post)"
    and "list_all (\<lambda>t. \<not> is_grouping_tag (plugin_regexp this) t) pre"
    and "is_grouping_tag (plugin_regexp this) grp"
  shows "(\<exists>members. get_prop (mapedTocData d) (groupKey_of grp) = Own members
            \<and> name r \<in> set members)
         \<and> (list_ex is_deprecated_tag (pre @ [grp]) \<longrightarrow> name r \<in> deprecatedData d)"
  using scan_reflections_member [OF assms(1) [unfolded onBeginResolve_def] assms(2,3,4)] assms(5,6)
  by (simp add: get_prop_Own)

lemma onBeginResolve_regexp:
  "onBeginResolve this options project_name refs = Inr d \<Longrightarrow> regexp d = plugin_regexp this"
  unfolding onBeginResolve_def by (drule scan_reflections_frame) simp

lemma set_ungrouped_frame:
  "set_ungrouped d toc_items = Inr d1 \<Longrightarrow>
     regexp d1 = regexp d \<and> deprecatedData d1 = deprecatedData d
     \<and> groupedData d1 = groupedData d \<and> homePath d1 = homePath d
     \<and> (\<forall>key v. get_prop (mapedTocData d) key = Own v \<longrightarrow> get_prop (mapedTocData d1) key = Own v)"
  by (drule set_ungrouped_cases) (auto simp: get_prop_Own map_of_append map_add_def)

lemma set_ungrouped_returns: "\<exists>d1. set_ungrouped d (Some items) = Inr d1"
  by (simp add: set_ungrouped_def Let_def split: js_get.splits)

text \<open>
  C8, as the code has it. A deprecation tag does not end the tag loop: for a symbol whose
  tags hold a deprecation tag and, later, its first grouping tag, the Indexer (when it
  returns) has the name in \<^verbatim>\<open>deprecatedData\<close> and in the list of the grouping tag's key. On
  every page whose default tree holds items with reflections the Regrouper builds the
  group roots; an item titled by that name that the kind probe lets through is then
  among the children of the root built for that key, it is flagged as deprecated, and
  its parent is a group root whose list holds the name. The flag and the parent are in
  the page as the function leaves it, and the roots are its new child list when there
  is one root.
\<close>

theorem deprecated_and_grouped:
  assumes "onBeginResolve this options project_name refs = Inr d"
    and "r \<in> set refs" and "comment r = Some c"
    and "tags c = Some (pre @ dep # mid @ grp # post)"
    and "is_deprecated_tag dep"
    and "list_all (\<lambda>t. \<not> is_grouping_tag (plugin_regexp this) t) (pre @ dep # mid)"
    and "is_grouping_tag (plugin_regexp this) grp"
    and "project_data page = Some d" and "nodes page = Some items"
    and "list_all (\<lambda>item. reflection item \<noteq> None) items"
    and "j < length items" and "title (items ! j) = name r"
    and "reflection (items ! j) = Some rr"
    and "\<not> regexp_test (regexp d) (kind_probe rr)"
  shows "name r \<in> deprecatedData d
     \<and> (\<exists>members. get_prop (mapedTocData d) (groupKey_of grp) = Own members
            \<and> name r \<in> set members)
     \<and> (\<exists>d1 items' roots.
           set_ungrouped d (nodes page) = Inr d1
           \<and> build_roots d1 (Object_keys (mapedTocData d1)) (nodes page) = (Some items', Inr roots)
           \<and> (\<exists>g \<in> set roots. title g = groupKey_of grp \<and> groupTitle g = Some (groupKey_of grp)
                  \<and> (\<exists>kept. children g = Some kept \<and> j \<in> set kept))
           \<and> deprecated (items' ! j)
           \<and> (\<exists>k members. nav_parent (items' ! j) = Some (GroupRoot k)
                  \<and> get_prop (mapedTocData d1) k = Own members \<and> name r \<in> set members)
           \<and> buildGroupTocContent page
               = (if length roots = 1
                  then (page\<lparr>project_data := Some d1, nodes := Some items',
                              toc := Regrouped roots\<rparr>, None)
                  else (page\<lparr>project_data := Some d1, nodes := Some items'\<rparr>,
                        Some TypeError)))"
proof -
  let ?key = "groupKey_of grp"
  have tags: "tags c = Some ((pre @ dep # mid) @ grp # post)"
    using assms(4) by simp
  from onBeginResolve_member [OF assms(1,2,3) tags assms(6,7)] assms(5)
  obtain members where own: "get_prop (mapedTocData d) ?key = Own members"
    and mem: "name r \<in> set members" and dep: "name r \<in> deprecatedData d"
    by auto
  from set_ungrouped_returns [of d items] assms(9)
  obtain d1 where d1: "set_ungrouped d (nodes page) = Inr d1" by auto
  note fr = set_ungrouped_frame [OF d1]
  from own fr have own1: "get_prop (mapedTocData d1) ?key = Own members" by simp
  from own have ne: "mapedTocData d \<noteq> []" by (auto simp: get_prop_Own)
  let ?keys = "Object_keys (mapedTocData d1)"
  have "\<forall>key \<in> set ?keys. \<exists>v. get_prop (mapedTocData d1) key = Own v"
    by (simp add: Object_keys_own)
  from build_roots_returns [OF assms(10) this]
  obtain items' roots where b: "build_roots d1 ?keys (Some items) = (Some items', Inr roots)"
    by blast
  have key: "?key \<in> set ?keys"
    using own1 by (force simp: set_Object_keys get_prop_Own dest: map_of_SomeD)
  from build_roots_of_key [OF b key]
  obtain kept where g: "group_root d1 ?key kept \<in> set roots"
    and all: "\<forall>j. j \<in> set kept \<longleftrightarrow>
                        j < length items
                        \<and> passes_filter d1 (get_prop (mapedTocData d1) ?key) (items ! j)"
    by blast
  have pass: "passes_filter d1 (get_prop (mapedTocData d1) ?key) (items ! j)"
    using own1 assms(12,13,14) mem fr by (simp add: passes_filter_def)
  with all assms(11) have j: "j \<in> set kept" by simp
  have root: "\<exists>g \<in> set roots. title g = ?key \<and> groupTitle g = Some ?key
                  \<and> (\<exists>kept. children g = Some kept \<and> j \<in> set kept)"
    using g j by (intro bexI [of _ "group_root d1 ?key kept"])
      (simp_all add: group_root_def new_NavigationItem_def)
  have keys_ne: "?keys \<noteq> []" using key by auto
  have flag: "deprecated (items' ! j)"
    using build_roots_flag [OF b keys_ne assms(11,13)] assms(12,14) dep fr by simp
  from build_roots_parent_member [OF b assms(11) key pass]
  obtain k where k: "nav_parent (items' ! j) = Some (GroupRoot k)"
    and passk: "passes_filter d1 (get_prop (mapedTocData d1) k) (items ! j)"
    by blast
  from passk assms(12) obtain members' where "get_prop (mapedTocData d1) k = Own members'"
    and "name r \<in> set members'"
    by (auto simp: passes_filter_def split: option.splits js_get.splits)
  with k have par: "\<exists>k members. nav_parent (items' ! j) = Some (GroupRoot k)
                  \<and> get_prop (mapedTocData d1) k = Own members \<and> name r \<in> set members"
    by blast
  from length_build_roots [OF b] keys_ne have len: "length roots \<le> 1 \<longleftrightarrow> length roots = 1"
    by (cases roots) auto
  have final: "buildGroupTocContent page
               = (if length roots = 1
                  then (page\<lparr>project_data := Some d1, nodes := Some items',
                              toc := Regrouped roots\<rparr>, None)
                  else (page\<lparr>project_data := Some d1, nodes := Some items'\<rparr>,
                        Some TypeError))"
    using regroup_outcome [OF assms(8) ne d1 b [folded assms(9)]] len by simp
  from d1 b root flag par final assms(9)
  have "\<exists>d1 items' roots.
           set_ungrouped d (nodes page) = Inr d1
           \<and> build_roots d1 (Object_keys (mapedTocData d1)) (nodes page) = (Some items', Inr roots)
           \<and> (\<exists>g \<in> set roots. title g = groupKey_of grp \<and> groupTitle g = Some (groupKey_of grp)
                  \<and> (\<exists>kept. children g = Some kept \<and> j \<in> set kept))
           \<and> deprecated (items' ! j)
           \<and> (\<exists>k members. nav_parent (items' ! j) = Some (GroupRoot k)
                  \<and> get_prop (mapedTocData d1) k = Own members \<and> name r \<in> set members)
           \<and> buildGroupTocContent page
               = (if length roots = 1
                  then (page\<lparr>project_data := Some d1, nodes := Some items',
                              toc := Regrouped roots\<rparr>, None)
                  else (page\<lparr>project_data := Some d1, nodes := Some items'\<rparr>,
                        Some TypeError))"
    by (intro exI [of _ d1] exI [of _ items'] exI [of _ roots]) simp
  with dep own mem show ?thesis by blast
qed

lemma scenario2_index:
  "onBeginResolve (onBegin default_options) default_options ''docs'' scenario2
     = Inr scenario2_data"
proof -
  have "\<not> is_grouping_tag [''group'', ''kind'', ''platform'']
            \<lparr>tagName = ''deprecated'', tag_text = []\<rparr>"
    by (simp add: is_grouping_tag_def regexp_test_def)
  then show ?thesis
    by (simp add: onBeginResolve_def scenario2_def symbol_def default_regexp group_tag
        groupKey_of_def scan_tags_step Let_def get_prop_def object_prototype_def
        default_homePath_def default_sortOrder default_homePath_option scenario2_data_def
        is_deprecated_tag_iff)
qed

text \<open>
  The second scenario of the specification, with no option set: \<^verbatim>\<open>Qux\<close> is flagged, it is
  the child of the root \<^verbatim>\<open>Beta\<close>, and that root is the new child list of the page.
\<close>

theorem deprecated_and_grouped_witness:
  "''Qux'' \<in> deprecatedData scenario2_data
   \<and> (\<exists>members. get_prop (mapedTocData scenario2_data) ''Beta'' = Own members
          \<and> ''Qux'' \<in> set members)
   \<and> (\<exists>d1 items' roots.
         set_ungrouped scenario2_data (Some (map item_of scenario2)) = Inr d1
         \<and> build_roots d1 (Object_keys (mapedTocData d1)) (Some (map item_of scenario2))
             = (Some items', Inr roots)
         \<and> (\<exists>g \<in> set roots. title g = ''Beta'' \<and> groupTitle g = Some ''Beta''
                \<and> (\<exists>kept. children g = Some kept \<and> 0 \<in> set kept))
         \<and> deprecated (items' ! 0)
         \<and> (\<exists>k members. nav_parent (items' ! 0) = Some (GroupRoot k)
                \<and> get_prop (mapedTocData d1) k = Own members \<and> ''Qux'' \<in> set members)
         \<and> buildGroupTocContent
                  (default_page (ReflectionModel docs_project) scenario2_data scenario2)
             = (\<lparr>model = ReflectionModel docs_project, project_data = Some d1,
                 nodes = Some items', toc = Regrouped roots\<rparr>, None))"
proof -
  let ?dep = "\<lparr>tagName = ''deprecated'', tag_text = []\<rparr>"
  let ?grp = "\<lparr>tagName = ''group'', tag_text = ''Beta''\<rparr>"
  let ?r = "symbol ''Qux'' 128 ''Class'' [?dep, ?grp]"
  let ?page = "default_page (ReflectionModel docs_project) scenario2_data scenario2"
  have 1: "?r \<in> set scenario2" by (simp add: scenario2_def)
  have 2: "comment ?r = Some \<lparr>tags = Some [?dep, ?grp]\<rparr>" by (simp add: symbol_def)
  have 3: "tags \<lparr>tags = Some [?dep, ?grp]\<rparr> = Some ([] @ ?dep # [] @ ?grp # [])" by simp
  have 4: "is_deprecated_tag ?dep" by (simp add: is_deprecated_tag_iff)
  have 5: "list_all (\<lambda>t. \<not> is_grouping_tag (plugin_regexp (onBegin default_options)) t)
             ([] @ ?dep # [])"
    by (simp add: default_regexp is_grouping_tag_def regexp_test_def)
  have 6: "is_grouping_tag (plugin_regexp (onBegin default_options)) ?grp"
    by (simp add: default_regexp group_tag)
  have 7: "project_data ?page = Some scenario2_data"
    and 8: "nodes ?page = Some (map item_of scenario2)"
    by (simp_all add: default_page_def)
  have 9: "list_all (\<lambda>item. reflection item \<noteq> None) (map item_of scenario2)"
    by (simp add: scenario2_def item_of_def)
  have 10: "0 < length (map item_of scenario2)" by (simp add: scenario2_def)
  have 11: "title (map item_of scenario2 ! 0) = name ?r"
    and 12: "reflection (map item_of scenario2 ! 0) = Some ?r"
    by (simp_all add: scenario2_def item_of_def new_NavigationItem_def)
  have 13: "\<not> regexp_test (regexp scenario2_data) (kind_probe ?r)"
    by (simp add: scenario2_data_def default_names_exclude_no_kind)
  have key: "groupKey_of ?grp = ''Beta''" by (simp add: groupKey_of_def)
  have nm: "name ?r = ''Qux''" by (simp add: symbol_def)
  have ung: "set_ungrouped scenario2_data (Some (map item_of scenario2)) = Inr scenario2_data"
    by (simp add: set_ungrouped_def scenario2_data_def scenario2_def item_of_def symbol_def
        new_NavigationItem_def get_prop_def object_prototype_def DEFAULT_UNGROUPED_NAME_def)
  have keys: "Object_keys (mapedTocData scenario2_data) = [''Beta'']"
    by (simp add: scenario2_data_def Object_keys_single)
  have page: "(?page\<lparr>project_data := Some d1, nodes := Some items', toc := Regrouped roots\<rparr>, None)
      = (\<lparr>model = ReflectionModel docs_project, project_data = Some d1,
                nodes = Some items', toc = Regrouped roots\<rparr>, None :: error option)"
    for d1 items' roots
    by (simp add: default_page_def)
  from deprecated_and_grouped [OF scenario2_index 1 2 3 4 5 6 7 8 9 10 11 12 13]
  have dep: "''Qux'' \<in> deprecatedData scenario2_data"
    and own: "\<exists>members. get_prop (mapedTocData scenario2_data) ''Beta'' = Own members
          \<and> ''Qux'' \<in> set members"
    and ex: "\<exists>d1 items' roots.
           set_ungrouped scenario2_data (Some (map item_of scenario2)) = Inr d1
           \<and> build_roots d1 (Object_keys (mapedTocData d1)) (Some (map item_of scenario2))
               = (Some items', Inr roots)
           \<and> (\<exists>g \<in> set roots. title g = ''Beta'' \<and> groupTitle g = Some ''Beta''
                  \<and> (\<exists>kept. children g = Some kept \<and> 0 \<in> set kept))
           \<and> deprecated (items' ! 0)
           \<and> (\<exists>k members. nav_parent (items' ! 0) = Some (GroupRoot k)
                  \<and> get_prop (mapedTocData d1) k = Own members \<and> ''Qux'' \<in> set members)
           \<and> buildGroupTocContent ?page
               = (if length roots = 1
                  then (?page\<lparr>project_data := Some d1, nodes := Some items',
                              toc := Regrouped roots\<rparr>, None)
                  else (?page\<lparr>project_data := Some d1, nodes := Some items'\<rparr>,
                        Some TypeError))"
    unfolding key nm 8 by simp_all
  from ex obtain d1 items' roots where
    all: "set_ungrouped scenario2_data (Some (map item_of scenario2)) = Inr d1
           \<and> build_roots d1 (Object_keys (mapedTocData d1)) (Some (map item_of scenario2))
               = (Some items', Inr roots)
           \<and> (\<exists>g \<in> set roots. title g = ''Beta'' \<and> groupTitle g = Some ''Beta''
                  \<and> (\<exists>kept. children g = Some kept \<and> 0 \<in> set kept))
           \<and> deprecated (items' ! 0)
           \<and> (\<exists>k members. nav_parent (items' ! 0) = Some (GroupRoot k)
                  \<and> get_prop (mapedTocData d1) k = Own members \<and> ''Qux'' \<in> set members)
           \<and> buildGroupTocContent ?page
               = (if length roots = 1
                  then (?page\<lparr>project_data := Some d1, nodes := Some items',
                              toc := Regrouped roots\<rparr>, None)
                  else (?page\<lparr>project_data := Some d1, nodes := Some items'\<rparr>,
                        Some TypeError))"
    by blast
  from all ung have d1: "d1 = scenario2_data" by simp
  from all have b: "build_roots d1 (Object_keys (mapedTocData d1)) (Some (map item_of scenario2))
               = (Some items', Inr roots)"
    by simp
  from length_build_roots [OF b] d1 keys have len: "length roots = 1" by simp
  from all have "set_ungrouped scenario2_data (Some (map item_of scenario2)) = Inr d1
           \<and> build_roots d1 (Object_keys (mapedTocData d1)) (Some (map item_of scenario2))
               = (Some items', Inr roots)
           \<and> (\<exists>g \<in> set roots. title g = ''Beta'' \<and> groupTitle g = Some ''Beta''
                  \<and> (\<exists>kept. children g = Some kept \<and> 0 \<in> set kept))
           \<and> deprecated (items' ! 0)
           \<and> (\<exists>k members. nav_parent (items' ! 0) = Some (GroupRoot k)
                  \<and> get_prop (mapedTocData d1) k = Own members \<and> ''Qux'' \<in> set members)
           \<and> buildGroupTocContent ?page
             = (\<lparr>model = ReflectionModel docs_project, project_data = Some d1,
                 nodes = Some items', toc = Regrouped roots\<rparr>, None)"
    unfolding len by (simp only: if_True refl page)
  then have "\<exists>d1 items' roots.
         set_ungrouped scenario2_data (Some (map item_of scenario2)) = Inr d1
         \<and> build_roots d1 (Object_keys (mapedTocData d1)) (Some (map item_of scenario2))
             = (Some items', Inr roots)
         \<and> (\<exists>g \<in> set roots. title g = ''Beta'' \<and> groupTitle g = Some ''Beta''
                \<and> (\<exists>kept. children g = Some kept \<and> 0 \<in> set kept))
         \<and> deprecated (items' ! 0)
         \<and> (\<exists>k members. nav_parent (items' ! 0) = Some (GroupRoot k)
                \<and> get_prop (mapedTocData d1) k = Own members \<and> ''Qux'' \<in> set members)
         \<and> buildGroupTocContent ?page
             = (\<lparr>model = ReflectionModel docs_project, project_data = Some d1,
                 nodes = Some items', toc = Regrouped roots\<rparr>, None)"
    by blast
  with dep own show ?thesis by blast
qed

text \<open>
  The claim C8 itself, that the node of a symbol with both tags is flagged inside its
  group, fails for a node that the kind probe drops. With the name \<^verbatim>\<open>!128\<close> configured,
  the class \<^verbatim>\<open>Qux\<close> of the second scenario (kind 128, tags \<^verbatim>\<open>@deprecated\<close> and
  \<^verbatim>\<open>@group Beta\<close>) is in \<^verbatim>\<open>deprecatedData\<close> and in the list of \<^verbatim>\<open>Beta\<close>, and the Regrouper
  returns with the root \<^verbatim>\<open>Beta\<close> as the child list of the page; but the root has no child
  and the node of \<^verbatim>\<open>Qux\<close> is as TypeDoc made it, not flagged.
\<close>

theorem deprecated_node_excluded:
  "plugin_regexp (onBegin (tag_options ''!128'')) = [''group'', ''kind'', ''platform'', ''!128'']
   \<and> kind (hd scenario2) = 128
   \<and> onBeginResolve (onBegin (tag_options ''!128'')) (tag_options ''!128'') ''docs'' scenario2
      = Inr (scenario2_data\<lparr>regexp := [''group'', ''kind'', ''platform'', ''!128'']\<rparr>)
   \<and> ''Qux'' \<in> deprecatedData (scenario2_data\<lparr>regexp := [''group'', ''kind'', ''platform'', ''!128'']\<rparr>)
   \<and> get_prop (mapedTocData (scenario2_data\<lparr>regexp := [''group'', ''kind'', ''platform'', ''!128'']\<rparr>))
        ''Beta'' = Own [''Qux'']
   \<and> buildGroupTocContent
        (default_page (ReflectionModel docs_project)
           (scenario2_data\<lparr>regexp := [''group'', ''kind'', ''platform'', ''!128'']\<rparr>) scenario2)
      = (\<lparr>model = ReflectionModel docs_project,
          project_data = Some (scenario2_data\<lparr>regexp := [''group'', ''kind'', ''platform'', ''!128'']\<rparr>),
          nodes = Some [item_of (hd scenario2)],
          toc = Regrouped
                  [group_root (scenario2_data\<lparr>regexp := [''group'', ''kind'', ''platform'', ''!128'']\<rparr>)
                     ''Beta'' []]\<rparr>, None)
   \<and> children (group_root (scenario2_data\<lparr>regexp := [''group'', ''kind'', ''platform'', ''!128'']\<rparr>)
                 ''Beta'' []) = Some []
   \<and> title (item_of (hd scenario2)) = ''Qux''
   \<and> \<not> deprecated (item_of (hd scenario2))"
proof -
  let ?re = "[''group'', ''kind'', ''platform'', ''!128'']"
  let ?d = "scenario2_data\<lparr>regexp := ?re\<rparr>"
  have re: "plugin_regexp (onBegin (tag_options ''!128'')) = ?re"
    by (simp add: onBegin_def groupTags_def defaultTags_def tag_options_def)
  have so: "plugin_sortOrder (onBegin (tag_options ''!128'')) = []"
    and hp: "homePath_option (tag_options ''!128'') = None"
    by (simp_all add: onBegin_def tag_options_def sortOrder_of_def)
  have tag: "is_grouping_tag ?re \<lparr>tagName = ''group'', tag_text = ''Beta''\<rparr>"
    by (rule is_grouping_tag_exact) simp
  have ntag: "\<not> is_grouping_tag ?re \<lparr>tagName = ''deprecated'', tag_text = []\<rparr>"
    by (simp add: is_grouping_tag_def regexp_test_def)
  have index: "onBeginResolve (onBegin (tag_options ''!128'')) (tag_options ''!128'') ''docs''
        scenario2 = Inr ?d"
    by (simp add: onBeginResolve_def scenario2_def symbol_def re tag ntag so hp
        groupKey_of_def scan_tags_step Let_def get_prop_def object_prototype_def
        default_homePath_def scenario2_data_def is_deprecated_tag_iff)
  have k: "kind (hd scenario2) = 128" and r: "reflection (item_of (hd scenario2)) = Some (hd scenario2)"
    and t: "title (item_of (hd scenario2)) = ''Qux''"
    and nd: "\<not> deprecated (item_of (hd scenario2))"
    by (simp_all add: scenario2_def symbol_def item_of_def new_NavigationItem_def)
  have ex: "regexp_test (regexp ?d) (kind_probe (hd scenario2))"
    by (simp add: kind_probe_test k show_nat_128)
  have item: "filter_item ?d ''Beta'' gv (item_of (hd scenario2)) = Inr (False, item_of (hd scenario2))"
    for gv
    by (rule filter_item_excluded [OF r ex])
  have keys: "Object_keys (mapedTocData scenario2_data) = [''Beta'']"
    by (simp add: scenario2_data_def Object_keys_single)
  have ung: "set_ungrouped ?d (Some (map item_of scenario2)) = Inr ?d"
    by (simp add: set_ungrouped_def scenario2_data_def scenario2_def item_of_def symbol_def
          new_NavigationItem_def get_prop_def object_prototype_def DEFAULT_UNGROUPED_NAME_def)
  have items: "map item_of scenario2 = [item_of (hd scenario2)]"
    by (simp add: scenario2_def)
  have roots: "build_roots ?d [''Beta''] (Some (map item_of scenario2))
       = (Some [item_of (hd scenario2)], Inr [group_root ?d ''Beta'' []])"
    unfolding items by (simp add: item)
  have sorted: "js_sort (sort_compare (sortOrder scenario2_data)) [group_root ?d ''Beta'' []]
       = Inr [group_root ?d ''Beta'' []]"
    by simp
  have page: "buildGroupTocContent (default_page (ReflectionModel docs_project) ?d scenario2)
      = (\<lparr>model = ReflectionModel docs_project, project_data = Some ?d,
          nodes = Some [item_of (hd scenario2)],
          toc = Regrouped [group_root ?d ''Beta'' []]\<rparr>, None)"
    by (simp add: buildGroupTocContent_def default_page_def keys ung roots sorted
          del: build_roots.simps js_sort.simps)
  have d: "''Qux'' \<in> deprecatedData ?d" and own: "get_prop (mapedTocData ?d) ''Beta'' = Own [''Qux'']"
    by (simp_all add: scenario2_data_def get_prop_def)
  have ch: "children (group_root ?d ''Beta'' []) = Some []"
    by (simp add: group_root_def)
  from re k index d own page ch t nd show ?thesis by simp
qed


section \<open>A group key that is the name of the catch-all group\<close>

text \<open>
  When the first grouping tag of some symbol has the key \<^verbatim>\<open>Others\<close>, the record the Indexer
  returns has that key, so on every page the step of lines 126 to 134 stores nothing and
  the record stays as it is. The roots built for a page (they are built whenever its
  items have reflections) hold only items whose titles are in \<^verbatim>\<open>groupedData\<close>, so an item
  with another title is in no group. These roots become the child list of the page when
  there is one root, that is, when \<^verbatim>\<open>Others\<close> is the only key; with another key beside it
  the sort raises and the page keeps its default child list.
\<close>

lemma others_key_no_catch_all:
  assumes "onBeginResolve this options project_name refs = Inr d"
    and "r \<in> set refs" and "comment r = Some c" and "tags c = Some (pre @ grp # post)"
    and "list_all (\<lambda>t. \<not> is_grouping_tag (plugin_regexp this) t) pre"
    and "is_grouping_tag (plugin_regexp this) grp"
    and "groupKey_of grp = DEFAULT_UNGROUPED_NAME"
    and "project_data page = Some d"
  shows "set_ungrouped d (nodes page) = Inr d
     \<and> project_data (fst (buildGroupTocContent page)) = Some d
     \<and> (\<forall>items. nodes page = Some items \<longrightarrow>
            list_all (\<lambda>item. reflection item \<noteq> None) items \<longrightarrow>
          (\<exists>items' roots.
             build_roots d (Object_keys (mapedTocData d)) (nodes page) = (Some items', Inr roots)
             \<and> (\<forall>g \<in> set roots. \<exists>kept. children g = Some kept
                  \<and> (\<forall>j \<in> set kept. j < length items
                                   \<and> title (items ! j) \<in> set (groupedData d)))
             \<and> buildGroupTocContent page
                 = (if length roots = 1
                    then (page\<lparr>project_data := Some d, nodes := Some items',
                                toc := Regrouped roots\<rparr>, None)
                    else (page\<lparr>project_data := Some d, nodes := Some items'\<rparr>,
                          Some TypeError))))"
proof (intro conjI allI impI)
  from onBeginResolve_member [OF assms(1,2,3,4,5,6)] assms(7)
  obtain members where own: "get_prop (mapedTocData d) DEFAULT_UNGROUPED_NAME = Own members"
    by auto
  then show skip: "set_ungrouped d (nodes page) = Inr d"
    by (simp add: set_ungrouped_def)
  from project_data_after_regroup [OF assms(8)] skip
  show "project_data (fst (buildGroupTocContent page)) = Some d"
    by auto
  from own have ne: "mapedTocData d \<noteq> []" by (auto simp: get_prop_Own)
  fix items
  assume items: "nodes page = Some items"
    and refl: "list_all (\<lambda>item. reflection item \<noteq> None) items"
  let ?keys = "Object_keys (mapedTocData d)"
  have "\<forall>key \<in> set ?keys. \<exists>v. get_prop (mapedTocData d) key = Own v"
    by (simp add: Object_keys_own)
  from build_roots_returns [OF refl this]
  obtain items' roots where b: "build_roots d ?keys (Some items) = (Some items', Inr roots)"
    by blast
  have grouped: "\<exists>kept. children g = Some kept
                  \<and> (\<forall>j \<in> set kept. j < length items
                                   \<and> title (items ! j) \<in> set (groupedData d))"
    if g: "g \<in> set roots" for g
  proof -
    from build_roots_of_root [OF b g]
    obtain key kept where gk: "g = group_root d key kept"
      and all: "\<forall>j. j \<in> set kept \<longleftrightarrow>
                 j < length items
                 \<and> passes_filter d (get_prop (mapedTocData d) key) (items ! j)"
      by blast
    have "j < length items \<and> title (items ! j) \<in> set (groupedData d)" if j: "j \<in> set kept" for j
    proof -
      from all j have lt: "j < length items"
        and pass: "passes_filter d (get_prop (mapedTocData d) key) (items ! j)"
        by simp_all
      from pass obtain l where "get_prop (mapedTocData d) key = Own l" and "title (items ! j) \<in> set l"
        by (auto simp: passes_filter_def split: option.splits js_get.splits)
      then have "title (items ! j) \<in> all_members (mapedTocData d)"
        by (force simp: all_members_def get_prop_Own dest: map_of_SomeD)
      with onBeginResolve_lists [OF assms(1)] lt show ?thesis by simp
    qed
    with gk show ?thesis by (simp add: group_root_def)
  qed
  have keys_ne: "?keys \<noteq> []" using ne by (simp add: Object_keys_empty)
  from length_build_roots [OF b] keys_ne have len: "length roots \<le> 1 \<longleftrightarrow> length roots = 1"
    by (cases roots) auto
  have final: "buildGroupTocContent page
                 = (if length roots = 1
                    then (page\<lparr>project_data := Some d, nodes := Some items',
                                toc := Regrouped roots\<rparr>, None)
                    else (page\<lparr>project_data := Some d, nodes := Some items'\<rparr>,
                          Some TypeError))"
    using regroup_outcome [OF assms(8) ne skip b [folded items]] len by simp
  from b grouped final items
  show "\<exists>items' roots.
             build_roots d (Object_keys (mapedTocData d)) (nodes page) = (Some items', Inr roots)
             \<and> (\<forall>g \<in> set roots. \<exists>kept. children g = Some kept
                  \<and> (\<forall>j \<in> set kept. j < length items
                                   \<and> title (items ! j) \<in> set (groupedData d)))
             \<and> buildGroupTocContent page
                 = (if length roots = 1
                    then (page\<lparr>project_data := Some d, nodes := Some items',
                                toc := Regrouped roots\<rparr>, None)
                    else (page\<lparr>project_data := Some d, nodes := Some items'\<rparr>,
                          Some TypeError))"
    by (intro exI [of _ items'] exI [of _ roots]) simp
qed

lemma others_index:
  "onBeginResolve (onBegin default_options) default_options ''docs'' others_symbols
     = Inr others_data"
  by (simp add: onBeginResolve_def others_symbols_def symbol_def default_regexp group_tag
        groupKey_of_def scan_tags_step Let_def get_prop_def object_prototype_def
        default_homePath_def default_sortOrder default_homePath_option others_data_def
        is_deprecated_tag_iff)

text \<open>
  With \<^verbatim>\<open>Others\<close> as the only key (\<^verbatim>\<open>Foo\<close> tagged \<^verbatim>\<open>@group Others\<close>, \<^verbatim>\<open>Baz\<close> untagged) the page
  gets the one root \<^verbatim>\<open>Others\<close> with the child \<^verbatim>\<open>Foo\<close>, and \<^verbatim>\<open>Baz\<close> (position 1) is in no
  group and no longer at the top level.
\<close>

lemma others_page_regrouped:
  "buildGroupTocContent (default_page m others_data others_symbols)
   = (\<lparr>model = m, project_data = Some others_data,
       nodes = Some [(item_of (others_symbols ! 0))\<lparr>nav_parent := Some (GroupRoot ''Others'')\<rparr>,
                     item_of (others_symbols ! 1)],
       toc = Regrouped [group_root others_data ''Others'' [0]]\<rparr>, None)"
proof -
  have keys: "Object_keys (mapedTocData others_data) = [''Others'']"
    by (simp add: others_data_def Object_keys_single)
  have ung: "set_ungrouped others_data (Some (map item_of others_symbols)) = Inr others_data"
    by (simp add: set_ungrouped_def others_data_def get_prop_def DEFAULT_UNGROUPED_NAME_def)
  have item0: "filter_item others_data ''Others'' (Own [''Foo'']) (item_of (others_symbols ! 0))
       = Inr (True, (item_of (others_symbols ! 0))\<lparr>nav_parent := Some (GroupRoot ''Others'')\<rparr>)"
    by (simp add: filter_item_def item_of_def others_symbols_def symbol_def new_NavigationItem_def
          others_data_def default_names_exclude_no_kind)
  have item1: "filter_item others_data ''Others'' (Own [''Foo'']) (item_of (others_symbols ! 1))
       = Inr (False, item_of (others_symbols ! 1))"
    by (simp add: filter_item_def item_of_def others_symbols_def symbol_def new_NavigationItem_def
          others_data_def default_names_exclude_no_kind)
  have items: "map item_of others_symbols = [item_of (others_symbols ! 0), item_of (others_symbols ! 1)]"
    by (simp add: others_symbols_def)
  have roots: "build_roots others_data [''Others''] (Some (map item_of others_symbols))
       = (Some [(item_of (others_symbols ! 0))\<lparr>nav_parent := Some (GroupRoot ''Others'')\<rparr>,
                item_of (others_symbols ! 1)],
          Inr [group_root others_data ''Others'' [0]])"
    unfolding items using item0 item1 by (simp add: get_prop_def others_data_def)
  have sorted: "js_sort (sort_compare (sortOrder others_data)) [group_root others_data ''Others'' [0]]
       = Inr [group_root others_data ''Others'' [0]]"
    by simp
  show ?thesis
    by (simp add: buildGroupTocContent_def default_page_def keys ung roots sorted
          del: build_roots.simps js_sort.simps)
qed

lemma others_alpha_index:
  "onBeginResolve (onBegin default_options) default_options ''docs'' others_alpha_symbols
     = Inr others_alpha_data"
  by (simp add: onBeginResolve_def others_alpha_symbols_def symbol_def default_regexp group_tag
        groupKey_of_def scan_tags_step Let_def get_prop_def object_prototype_def
        default_homePath_def default_sortOrder default_homePath_option others_alpha_data_def
        is_deprecated_tag_iff)

text \<open>
  C10. The claim: when some grouping tag yields the key \<^verbatim>\<open>Others\<close>, then on every page of
  the build the catch-all list is not computed, and the top-level children whose titles
  are not in \<^verbatim>\<open>groupedData\<close> are in no group of the transformed tree and are gone from the
  top level. In a build with \<^verbatim>\<open>Foo\<close> tagged \<^verbatim>\<open>@group Others\<close>, \<^verbatim>\<open>Bar\<close> tagged \<^verbatim>\<open>@group Alpha\<close>
  and \<^verbatim>\<open>Baz\<close> untagged, the list is indeed not computed (the record keeps \<^verbatim>\<open>Others\<close> with
  the one name \<^verbatim>\<open>Foo\<close>), and the two roots are built without \<^verbatim>\<open>Baz\<close>; but the sort of the
  two roots raises, as in C3, so the tree is not transformed: the page keeps its
  default child list, with \<^verbatim>\<open>Baz\<close> in it.
\<close>

theorem others_and_alpha_raises:
  "onBeginResolve (onBegin default_options) default_options ''docs'' others_alpha_symbols
     = Inr others_alpha_data
   \<and> get_prop (mapedTocData others_alpha_data) DEFAULT_UNGROUPED_NAME = Own [''Foo'']
   \<and> set_ungrouped others_alpha_data (Some (map item_of others_alpha_symbols))
       = Inr others_alpha_data
   \<and> title (item_of (others_alpha_symbols ! 2)) = ''Baz''
   \<and> ''Baz'' \<notin> set (groupedData others_alpha_data)
   \<and> build_roots others_alpha_data (Object_keys (mapedTocData others_alpha_data))
        (Some (map item_of others_alpha_symbols))
      = (Some [(item_of (others_alpha_symbols ! 0))\<lparr>nav_parent := Some (GroupRoot ''Others'')\<rparr>,
               (item_of (others_alpha_symbols ! 1))\<lparr>nav_parent := Some (GroupRoot ''Alpha'')\<rparr>,
               item_of (others_alpha_symbols ! 2)],
         Inr [group_root others_alpha_data ''Others'' [0],
              group_root others_alpha_data ''Alpha'' [1]])
   \<and> children (group_root others_alpha_data ''Others'' [0]) = Some [0]
   \<and> children (group_root others_alpha_data ''Alpha'' [1]) = Some [1]
   \<and> buildGroupTocContent
        (default_page (ReflectionModel docs_project) others_alpha_data others_alpha_symbols)
      = (\<lparr>model = ReflectionModel docs_project, project_data = Some others_alpha_data,
          nodes = Some [(item_of (others_alpha_symbols ! 0))\<lparr>nav_parent := Some (GroupRoot ''Others'')\<rparr>,
                        (item_of (others_alpha_symbols ! 1))\<lparr>nav_parent := Some (GroupRoot ''Alpha'')\<rparr>,
                        item_of (others_alpha_symbols ! 2)],
          toc = Default\<rparr>, Some TypeError)"
proof -
  let ?d = others_alpha_data
  let ?page = "default_page (ReflectionModel docs_project) ?d others_alpha_symbols"
  let ?i0 = "item_of (others_alpha_symbols ! 0)"
  let ?i1 = "item_of (others_alpha_symbols ! 1)"
  let ?i2 = "item_of (others_alpha_symbols ! 2)"
  have own: "get_prop (mapedTocData ?d) DEFAULT_UNGROUPED_NAME = Own [''Foo'']"
    and alpha: "get_prop (mapedTocData ?d) ''Alpha'' = Own [''Bar'']"
    and others: "get_prop (mapedTocData ?d) ''Others'' = Own [''Foo'']"
    by (simp_all add: others_alpha_data_def get_prop_def DEFAULT_UNGROUPED_NAME_def)
  have keys: "Object_keys (mapedTocData ?d) = [''Others'', ''Alpha'']"
    by (simp add: others_alpha_data_def Object_keys_def is_array_index_def is_digit_def)
  have ung: "set_ungrouped ?d (Some (map item_of others_alpha_symbols)) = Inr ?d"
    using own by (simp add: set_ungrouped_def)
  have t: "title ?i2 = ''Baz''"
    by (simp add: item_of_def others_alpha_symbols_def symbol_def new_NavigationItem_def)
  have o0: "filter_item ?d ''Others'' (Own [''Foo'']) ?i0
              = Inr (True, ?i0\<lparr>nav_parent := Some (GroupRoot ''Others'')\<rparr>)"
    and o1: "filter_item ?d ''Others'' (Own [''Foo'']) ?i1 = Inr (False, ?i1)"
    and o2: "filter_item ?d ''Others'' (Own [''Foo'']) ?i2 = Inr (False, ?i2)"
    by (simp_all add: filter_item_def item_of_def others_alpha_symbols_def symbol_def
          new_NavigationItem_def others_alpha_data_def default_names_exclude_no_kind)
  have a0: "filter_item ?d ''Alpha'' (Own [''Bar'']) (?i0\<lparr>nav_parent := Some (GroupRoot ''Others'')\<rparr>)
              = Inr (False, ?i0\<lparr>nav_parent := Some (GroupRoot ''Others'')\<rparr>)"
    and a1: "filter_item ?d ''Alpha'' (Own [''Bar'']) ?i1
              = Inr (True, ?i1\<lparr>nav_parent := Some (GroupRoot ''Alpha'')\<rparr>)"
    and a2: "filter_item ?d ''Alpha'' (Own [''Bar'']) ?i2 = Inr (False, ?i2)"
    by (simp_all add: filter_item_def item_of_def others_alpha_symbols_def symbol_def
          new_NavigationItem_def others_alpha_data_def default_names_exclude_no_kind)
  have items: "map item_of others_alpha_symbols = [?i0, ?i1, ?i2]"
    by (simp add: others_alpha_symbols_def)
  have roots: "build_roots ?d [''Others'', ''Alpha''] (Some (map item_of others_alpha_symbols))
       = (Some [?i0\<lparr>nav_parent := Some (GroupRoot ''Others'')\<rparr>,
                ?i1\<lparr>nav_parent := Some (GroupRoot ''Alpha'')\<rparr>, ?i2],
          Inr [group_root ?d ''Others'' [0], group_root ?d ''Alpha'' [1]])"
    unfolding items using o0 o1 o2 a0 a1 a2 by (simp add: alpha others)
  have pd: "project_data ?page = Some ?d" and nd: "nodes ?page = Some (map item_of others_alpha_symbols)"
    by (simp_all add: default_page_def)
  have ne: "mapedTocData ?d \<noteq> []" by (simp add: others_alpha_data_def)
  have "buildGroupTocContent ?page
      = (?page\<lparr>project_data := Some ?d,
                nodes := Some [?i0\<lparr>nav_parent := Some (GroupRoot ''Others'')\<rparr>,
                               ?i1\<lparr>nav_parent := Some (GroupRoot ''Alpha'')\<rparr>, ?i2]\<rparr>,
         Some TypeError)"
    using regroup_outcome [OF pd ne ung [folded nd] roots [folded keys nd]] by simp
  then have page: "buildGroupTocContent ?page
      = (\<lparr>model = ReflectionModel docs_project, project_data = Some ?d,
          nodes = Some [?i0\<lparr>nav_parent := Some (GroupRoot ''Others'')\<rparr>,
                        ?i1\<lparr>nav_parent := Some (GroupRoot ''Alpha'')\<rparr>, ?i2],
          toc = Default\<rparr>, Some TypeError)"
    by (simp add: default_page_def)
  have g: "''Baz'' \<notin> set (groupedData ?d)" by (simp add: others_alpha_data_def)
  have ch: "children (group_root ?d ''Others'' [0]) = Some [0]"
    "children (group_root ?d ''Alpha'' [1]) = Some [1]"
    by (simp_all add: group_root_def)
  from others_alpha_index own ung t g roots [folded keys] ch page show ?thesis
    by (intro conjI)
qed


section \<open>The kinds the filter excludes\<close>

text \<open>
  C5, as the code has it. The probe is \<^verbatim>\<open>@!\<close> followed by the number of the kind. Where
  the configured names are plain text, the pattern matches the probe exactly when a
  configured name is a prefix of \<^verbatim>\<open>!\<close> followed by that number. An item with such a kind
  is among the children of no root and is left as it was; any other item is among the
  children of a root exactly when its title is in the list of the root's key, whatever
  its kind.
\<close>

theorem kind_probe_excludes:
  assumes "build_roots d keys (Some items) = (toc_items', Inr roots)"
    and "j < length items" and "reflection (items ! j) = Some r"
    and "list_all regexp_literal (regexp d)"
  shows "(regexp_test (regexp d) (kind_probe r)
            \<longleftrightarrow> list_ex (\<lambda>t. prefix t (CHR ''!'' # show_nat (kind r))) (regexp d))
     \<and> (regexp_test (regexp d) (kind_probe r) \<longrightarrow>
           (\<forall>g \<in> set roots. \<exists>kept. children g = Some kept \<and> j \<notin> set kept)
           \<and> (\<exists>items'. toc_items' = Some items' \<and> items' ! j = items ! j))
     \<and> (\<not> regexp_test (regexp d) (kind_probe r) \<longrightarrow>
           (\<forall>g \<in> set roots. \<exists>kept members. children g = Some kept
              \<and> get_prop (mapedTocData d) (title g) = Own members
              \<and> (j \<in> set kept \<longleftrightarrow> title (items ! j) \<in> set members)))"
proof (intro conjI impI ballI)
  show "regexp_test (regexp d) (kind_probe r)
            \<longleftrightarrow> list_ex (\<lambda>t. prefix t (CHR ''!'' # show_nat (kind r))) (regexp d)"
    by (rule kind_probe_test)
next
  fix g
  assume ex: "regexp_test (regexp d) (kind_probe r)" and g: "g \<in> set roots"
  from build_roots_of_root [OF assms(1) g]
  obtain key kept where gk: "g = group_root d key kept"
    and all: "\<forall>j. j \<in> set kept \<longleftrightarrow>
                 j < length items
                 \<and> passes_filter d (get_prop (mapedTocData d) key) (items ! j)"
    by blast
  from all ex assms(3) have "j \<notin> set kept"
    by (simp add: passes_filter_def)
  with gk show "\<exists>kept. children g = Some kept \<and> j \<notin> set kept"
    by (simp add: group_root_def)
next
  assume ex: "regexp_test (regexp d) (kind_probe r)"
  from build_roots_frame [OF assms(1)] obtain items' where i': "toc_items' = Some items'"
    by blast
  with build_roots_excluded [OF assms(1) [unfolded i'] assms(2,3) ex]
  show "\<exists>items'. toc_items' = Some items' \<and> items' ! j = items ! j"
    by simp
next
  fix g
  assume nex: "\<not> regexp_test (regexp d) (kind_probe r)" and g: "g \<in> set roots"
  from build_roots_of_root [OF assms(1) g]
  obtain key kept where key: "key \<in> set keys" and gk: "g = group_root d key kept"
    and all: "\<forall>j. j \<in> set kept \<longleftrightarrow>
                 j < length items
                 \<and> passes_filter d (get_prop (mapedTocData d) key) (items ! j)"
    by blast
  from build_roots_own [OF assms(1,2,3) nex key]
  obtain members where own: "get_prop (mapedTocData d) key = Own members"
    by blast
  from gk have ch: "children g = Some kept" and t: "title g = key"
    by (simp_all add: group_root_def new_NavigationItem_def)
  from all nex assms(2,3) own have "j \<in> set kept \<longleftrightarrow> title (items ! j) \<in> set members"
    by (simp add: passes_filter_def)
  with ch t own
  show "\<exists>kept members. children g = Some kept
              \<and> get_prop (mapedTocData d) (title g) = Own members
              \<and> (j \<in> set kept \<longleftrightarrow> title (items ! j) \<in> set members)"
    by blast
qed

text \<open>With the name \<^verbatim>\<open>!128\<close> configured, the class \<^verbatim>\<open>Foo\<close> is in no group.\<close>

theorem kind_probe_excludes_witness:
  "list_all regexp_literal (plugin_regexp (onBegin (tag_options ''!128'')))
   \<and> regexp_test (plugin_regexp (onBegin (tag_options ''!128'')))
     (kind_probe (symbol ''Foo'' 128 ''Class'' []))
   \<and> list_ex (\<lambda>t. prefix t (CHR ''!'' # show_nat 128))
        (plugin_regexp (onBegin (tag_options ''!128'')))
   \<and> build_roots (alpha_data\<lparr>regexp := plugin_regexp (onBegin (tag_options ''!128''))\<rparr>)
        [''Alpha''] (Some [item_of (symbol ''Foo'' 128 ''Class'' [])])
      = (Some [item_of (symbol ''Foo'' 128 ''Class'' [])],
         Inr [group_root (alpha_data\<lparr>regexp := plugin_regexp (onBegin (tag_options ''!128''))\<rparr>)
                ''Alpha'' []])
   \<and> children (group_root (alpha_data\<lparr>regexp := plugin_regexp (onBegin (tag_options ''!128''))\<rparr>)
                 ''Alpha'' []) = Some []"
proof -
  let ?r = "symbol ''Foo'' 128 ''Class'' []"
  let ?re = "plugin_regexp (onBegin (tag_options ''!128''))"
  let ?d = "alpha_data\<lparr>regexp := ?re\<rparr>"
  have re: "?re = [''group'', ''kind'', ''platform'', ''!128'']"
    by (simp add: onBegin_def groupTags_def defaultTags_def tag_options_def)
  have lit: "list_all regexp_literal ?re"
    unfolding re by (simp add: regexp_literal_def)
  have ex: "regexp_test (regexp ?d) (kind_probe ?r)"
    by (simp add: re kind_probe_test symbol_def show_nat_128)
  have item: "filter_item ?d ''Alpha'' gv (item_of ?r) = Inr (False, item_of ?r)" for gv
    by (rule filter_item_excluded [OF _ ex]) (simp add: item_of_def)
  have b: "build_roots ?d [''Alpha''] (Some [item_of ?r])
      = (Some [item_of ?r], Inr [group_root ?d ''Alpha'' []])"
    by (simp add: item)
  have 2: "0 < length [item_of ?r]" by simp
  have 3: "reflection ([item_of ?r] ! 0) = Some ?r" by (simp add: item_of_def)
  have 4: "list_all regexp_literal (regexp ?d)" using lit by simp
  from kind_probe_excludes [OF b 2 3 4] ex
  have "list_ex (\<lambda>t. prefix t (CHR ''!'' # show_nat (kind ?r))) (regexp ?d)"
    by blast
  then have "list_ex (\<lambda>t. prefix t (CHR ''!'' # show_nat 128)) ?re"
    by (simp add: symbol_def)
  moreover have "children (group_root ?d ''Alpha'' []) = Some []"
    by (simp add: group_root_def)
  ultimately show ?thesis using lit ex b by simp
qed

text \<open>
  The claim C5 itself, that an item whose kind matches a configured name is dropped,
  fails: with the names \<^verbatim>\<open>128\<close>, \<^verbatim>\<open>Class\<close> and \<^verbatim>\<open>class\<close> configured, the class \<^verbatim>\<open>Foo\<close> (kind
  128, kind string \<^verbatim>\<open>Class\<close>) passes the probe and is the child of its group \<^verbatim>\<open>Alpha\<close>.
\<close>

theorem kind_name_not_excluded:
  "plugin_regexp (onBegin (tag_options ''128,Class,class''))
     = [''group'', ''kind'', ''platform'', ''128'', ''Class'', ''class'']
   \<and> kind (hd alpha_symbols) = 128 \<and> kindString (hd alpha_symbols) = Some ''Class''
   \<and> onBeginResolve (onBegin (tag_options ''128,Class,class'')) (tag_options ''128,Class,class'')
        ''docs'' alpha_symbols
      = Inr (alpha_data\<lparr>regexp := [''group'', ''kind'', ''platform'', ''128'', ''Class'', ''class'']\<rparr>)
   \<and> buildGroupTocContent
        (default_page (ReflectionModel docs_project)
           (alpha_data\<lparr>regexp := [''group'', ''kind'', ''platform'', ''128'', ''Class'', ''class'']\<rparr>)
           alpha_symbols)
      = (\<lparr>model = ReflectionModel docs_project,
          project_data = Some (alpha_data\<lparr>regexp :=
                     [''group'', ''kind'', ''platform'', ''128'', ''Class'', ''class'']\<rparr>),
          nodes = Some [(item_of (hd alpha_symbols))\<lparr>nav_parent := Some (GroupRoot ''Alpha'')\<rparr>],
          toc = Regrouped
                  [group_root (alpha_data\<lparr>regexp :=
                     [''group'', ''kind'', ''platform'', ''128'', ''Class'', ''class'']\<rparr>)
                     ''Alpha'' [0]]\<rparr>, None)
   \<and> children (group_root (alpha_data\<lparr>regexp :=
                     [''group'', ''kind'', ''platform'', ''128'', ''Class'', ''class'']\<rparr>)
                 ''Alpha'' [0]) = Some [0]"
proof -
  let ?re = "[''group'', ''kind'', ''platform'', ''128'', ''Class'', ''class'']"
  let ?d = "alpha_data\<lparr>regexp := ?re\<rparr>"
  have re: "plugin_regexp (onBegin (tag_options ''128,Class,class'')) = ?re"
    by (simp add: onBegin_def groupTags_def defaultTags_def tag_options_def)
  have so: "plugin_sortOrder (onBegin (tag_options ''128,Class,class'')) = []"
    and hp: "homePath_option (tag_options ''128,Class,class'') = None"
    by (simp_all add: onBegin_def tag_options_def sortOrder_of_def)
  have tag: "is_grouping_tag ?re \<lparr>tagName = ''group'', tag_text = ''Alpha''\<rparr>"
    by (rule is_grouping_tag_exact) simp
  have index: "onBeginResolve (onBegin (tag_options ''128,Class,class''))
        (tag_options ''128,Class,class'') ''docs'' alpha_symbols = Inr ?d"
    by (simp add: onBeginResolve_def alpha_symbols_def symbol_def re tag so hp
        groupKey_of_def scan_tags_step Let_def get_prop_def object_prototype_def
        default_homePath_def alpha_data_def is_deprecated_tag_iff)
  have nex: "\<not> regexp_test ?re (kind_probe r)" for r
    by (simp add: kind_probe_test)
  have keys: "Object_keys (mapedTocData alpha_data) = [''Alpha'']"
    by (simp add: alpha_data_def Object_keys_single)
  have ung: "set_ungrouped ?d (Some (map item_of alpha_symbols)) = Inr ?d"
    by (simp add: set_ungrouped_def alpha_data_def alpha_symbols_def item_of_def symbol_def
          new_NavigationItem_def get_prop_def object_prototype_def DEFAULT_UNGROUPED_NAME_def)
  have item: "filter_item ?d ''Alpha'' (Own [''Foo'']) (item_of (hd alpha_symbols))
       = Inr (True, (item_of (hd alpha_symbols))\<lparr>nav_parent := Some (GroupRoot ''Alpha'')\<rparr>)"
    by (simp add: filter_item_def item_of_def alpha_symbols_def symbol_def new_NavigationItem_def
          alpha_data_def nex)
  have roots: "build_roots ?d [''Alpha''] (Some (map item_of alpha_symbols))
       = (Some [(item_of (hd alpha_symbols))\<lparr>nav_parent := Some (GroupRoot ''Alpha'')\<rparr>],
          Inr [group_root ?d ''Alpha'' [0]])"
    using item by (simp add: alpha_symbols_def get_prop_def alpha_data_def)
  have sorted: "js_sort (sort_compare (sortOrder alpha_data)) [group_root ?d ''Alpha'' [0]]
       = Inr [group_root ?d ''Alpha'' [0]]"
    by simp
  have page: "buildGroupTocContent (default_page (ReflectionModel docs_project) ?d alpha_symbols)
      = (\<lparr>model = ReflectionModel docs_project, project_data = Some ?d,
          nodes = Some [(item_of (hd alpha_symbols))\<lparr>nav_parent := Some (GroupRoot ''Alpha'')\<rparr>],
          toc = Regrouped [group_root ?d ''Alpha'' [0]]\<rparr>, None)"
    by (simp add: buildGroupTocContent_def default_page_def keys ung roots sorted
          del: build_roots.simps js_sort.simps)
  have k: "kind (hd alpha_symbols) = 128" "kindString (hd alpha_symbols) = Some ''Class''"
    by (simp_all add: alpha_symbols_def symbol_def)
  have ch: "children (group_root ?d ''Alpha'' [0]) = Some [0]"
    by (simp add: group_root_def)
  from re k index page ch show ?thesis by simp
qed

end
